theory Spec2Isabelle
  imports Main "HOL-Library.AList"
begin

section \<open>Values\<close>

text \<open>
  The request payload, step inputs and step outputs are Python values of type \<open>Any\<close>.
  The model covers the values that YAML manifests and JSON requests denote, floats apart:
  \<open>None\<close>, booleans, unbounded integers, strings, lists and dictionaries with string
  keys. A dictionary is an association list in insertion order; a key that is stored
  again keeps its position, as in Python. Strings are lists of characters.
\<close>

datatype pyval =
    PNone
  | PBool bool
  | PInt int
  | PStr string
  | PList "pyval list"
  | PDict "(string \<times> pyval) list"

type_synonym pydict = "(string \<times> pyval) list"

definition py_in :: "string \<Rightarrow> pydict \<Rightarrow> bool" where
  \<comment> \<open>\<open>key in d\<close>\<close>
  "py_in k d = (map_of d k \<noteq> None)"

definition py_get :: "pydict \<Rightarrow> string \<Rightarrow> pyval" where
  \<comment> \<open>\<open>d.get(key)\<close>: \<open>None\<close> for an absent key\<close>
  "py_get d k = (case map_of d k of None \<Rightarrow> PNone | Some v \<Rightarrow> v)"

section \<open>Models (models.py)\<close>

datatype skill_type =
  LLM_CALL | GENIE_QUERY | WEB_SEARCH | LAKEBASE_QUERY | FUNCTION | PROMPT_REGISTRY

datatype skill_status = SUCCESS | FAILURE | SKIPPED | TIMEOUT | NO_DATA

fun status_value :: "skill_status \<Rightarrow> string" where
  "status_value SUCCESS = ''success''"
| "status_value FAILURE = ''failure''"
| "status_value SKIPPED = ''skipped''"
| "status_value TIMEOUT = ''timeout''"
| "status_value NO_DATA = ''no_data''"

datatype fallback_strategy = PASSTHROUGH | DEFAULT_VALUE | SKIP

text \<open>\<open>FallbackConfig\<close>; \<open>default_value = PNone\<close> is Python's \<open>None\<close>, the unset default.\<close>

record fallback_config =
  strategy :: fallback_strategy
  passthrough_field :: "string option"
  default_value :: pyval

text \<open>\<open>FieldSchema\<close>; the description is documentation only and is left out.\<close>

record field_schema =
  name :: string
  type_tag :: string
  required :: bool
  default_of :: pyval

text \<open>
  \<open>SkillManifest\<close>. The provider configuration is an opaque dictionary that only the
  capability implementations read; display name, description, version and tags do not
  take part in execution and are left out.
\<close>

record skill_manifest =
  skill_id :: string
  skill_type_of :: skill_type
  config :: pydict
  input_schema :: "field_schema list"
  output_schema :: "field_schema list"
  fallback :: fallback_config
  mock_enabled :: bool

text \<open>
  \<open>SkillResult\<close>. The latency is wall-clock time and is not modelled.
\<close>

record skill_result =
  result_skill_id :: string
  result_step_id :: string
  result_status :: skill_status
  result_output :: pydict
  result_error :: "string option"
  result_metadata :: pydict

section \<open>The invocation lifecycle (executors/base.py)\<close>

text \<open>
  \<open>_execute\<close> and \<open>_mock_execute\<close> are the hooks of the concrete executors; they reach
  external services. They are a parameter \<open>impl\<close> of the model: given the calls made so
  far, which hook is called, the executor's manifest and the inputs, it says how the call
  ends. Every call of a hook is appended to a call log, so that a hook that was not
  called leaves the log as it was.
\<close>

datatype call_kind = Real | Mock

type_synonym call = "call_kind \<times> string \<times> pydict"

datatype outcome =
    Returned pydict
  | RaisedTimeout string
  | RaisedError string

type_synonym implementation =
  "call list \<Rightarrow> call_kind \<Rightarrow> skill_manifest \<Rightarrow> pydict \<Rightarrow> outcome"

definition missing_input_error :: "string \<Rightarrow> string" where
  \<comment> \<open>\<open>f"Missing required input: {field.name}"\<close>\<close>
  "missing_input_error n = ''Missing required input: '' @ n"

fun validate_fields :: "field_schema list \<Rightarrow> pydict \<Rightarrow> string option" where
  "validate_fields [] inputs = None"
| "validate_fields (f # fs) inputs =
     (if required f \<and> \<not> py_in (name f) inputs
      then Some (missing_input_error (name f))
      else validate_fields fs inputs)"

definition validate_inputs :: "skill_manifest \<Rightarrow> pydict \<Rightarrow> string option" where
  "validate_inputs m inputs = validate_fields (input_schema m) inputs"

definition truthy_str :: "string option \<Rightarrow> bool" where
  \<comment> \<open>truthiness of an \<open>Optional[str]\<close>\<close>
  "truthy_str s = (case s of None \<Rightarrow> False | Some t \<Rightarrow> t \<noteq> [])"

definition handle_fallback :: "skill_manifest \<Rightarrow> string \<Rightarrow> string \<Rightarrow> skill_result" where
  "handle_fallback m sid err =
     (let fb = fallback m in
      if strategy fb = PASSTHROUGH \<and> truthy_str (passthrough_field fb) then
        \<lparr>result_skill_id = skill_id m, result_step_id = sid, result_status = FAILURE,
         result_output = [(''_fallback'', PStr ''passthrough''),
                   (''_field'', (case passthrough_field fb of
                                   None \<Rightarrow> PNone | Some f \<Rightarrow> PStr f))],
         result_error = Some err,
         result_metadata = [(''fallback_strategy'', PStr ''passthrough'')]\<rparr>
      else if strategy fb = DEFAULT_VALUE \<and> default_value fb \<noteq> PNone then
        \<lparr>result_skill_id = skill_id m, result_step_id = sid, result_status = FAILURE,
         result_output = (case default_value fb of
                     PDict d \<Rightarrow> d
                   | v \<Rightarrow> [(''result'', v)]),
         result_error = Some err,
         result_metadata = [(''fallback_strategy'', PStr ''default_value'')]\<rparr>
      else
        \<lparr>result_skill_id = skill_id m, result_step_id = sid, result_status = SKIPPED,
         result_output = [],
         result_error = Some err,
         result_metadata = [(''fallback_strategy'', PStr ''skip'')]\<rparr>)"

definition passthrough_marker :: "string \<Rightarrow> pydict" where
  \<comment> \<open>the output of the passthrough branch for the configured field \<open>F\<close>\<close>
  "passthrough_marker F = [(''_fallback'', PStr ''passthrough''), (''_field'', PStr F)]"

definition execute ::
  "implementation \<Rightarrow> skill_manifest \<Rightarrow> pydict \<Rightarrow> string \<Rightarrow> bool \<Rightarrow> call list
     \<Rightarrow> skill_result \<times> call list" where
  "execute impl m inputs sid mock_mode log =
     (let validation_error = validate_inputs m inputs in
      if truthy_str validation_error then
        (handle_fallback m sid (case validation_error of Some e \<Rightarrow> e | None \<Rightarrow> []), log)
      else
        (let kind = (if mock_mode \<and> mock_enabled m then Mock else Real);
             log' = log @ [(kind, skill_id m, inputs)]
         in case impl log kind m inputs of
              Returned out \<Rightarrow>
                (\<lparr>result_skill_id = skill_id m, result_step_id = sid, result_status = SUCCESS,
                  result_output = out, result_error = None, result_metadata = []\<rparr>, log')
            | RaisedTimeout e \<Rightarrow> (handle_fallback m sid (''Timeout: '' @ e), log')
            | RaisedError e \<Rightarrow> (handle_fallback m sid e, log')))"

text \<open>An invocation fails when it ends in the fallback procedure.\<close>

definition invocation_fails ::
  "implementation \<Rightarrow> skill_manifest \<Rightarrow> pydict \<Rightarrow> bool \<Rightarrow> call list \<Rightarrow> bool" where
  "invocation_fails impl m inputs mock_mode log =
     (truthy_str (validate_inputs m inputs) \<or>
      (case impl log (if mock_mode \<and> mock_enabled m then Mock else Real) m inputs of
         Returned out \<Rightarrow> False | _ \<Rightarrow> True))"

section \<open>Strings\<close>

text \<open>
  The string operations of Python that the engine uses. A character of the model is a
  code point below 256.
\<close>

definition startswith :: "string \<Rightarrow> string \<Rightarrow> bool" where
  \<comment> \<open>\<open>s.startswith(p)\<close>\<close>
  "startswith s p = (take (length p) s = p)"

definition endswith :: "string \<Rightarrow> string \<Rightarrow> bool" where
  \<comment> \<open>\<open>s.endswith(p)\<close>\<close>
  "endswith s p = (length p \<le> length s \<and> drop (length s - length p) s = p)"

fun contains :: "string \<Rightarrow> string \<Rightarrow> bool" where
  \<comment> \<open>\<open>sub in s\<close>\<close>
  "contains sub [] = (sub = [])"
| "contains sub (c # cs) = (startswith (c # cs) sub \<or> contains sub cs)"

fun before_first :: "string \<Rightarrow> string \<Rightarrow> string" where
  \<comment> \<open>\<open>s.split(sep)[0]\<close>, and the left part of \<open>s.split(sep, 1)\<close>\<close>
  "before_first sep [] = []"
| "before_first sep (c # cs) =
     (if startswith (c # cs) sep then [] else c # before_first sep cs)"

fun after_first :: "string \<Rightarrow> string \<Rightarrow> string" where
  \<comment> \<open>the right part of \<open>s.split(sep, 1)\<close> when \<open>sep in s\<close>\<close>
  "after_first sep [] = []"
| "after_first sep (c # cs) =
     (if startswith (c # cs) sep then drop (length sep) (c # cs) else after_first sep cs)"

fun split_char :: "char \<Rightarrow> string \<Rightarrow> string list" where
  \<comment> \<open>\<open>s.split(c)\<close> for a one-character separator\<close>
  "split_char sep [] = [[]]"
| "split_char sep (c # cs) =
     (if c = sep then [] # split_char sep cs
      else (case split_char sep cs of
              [] \<Rightarrow> [[c]]
            | p # ps \<Rightarrow> (c # p) # ps))"

definition isspace :: "char \<Rightarrow> bool" where
  \<comment> \<open>\<open>str.isspace\<close> on the code points below 256\<close>
  "isspace c =
     (let n = (of_char c :: nat)
      in (9 \<le> n \<and> n \<le> 13) \<or> (28 \<le> n \<and> n \<le> 32) \<or> n = 133 \<or> n = 160)"

definition strip_where :: "(char \<Rightarrow> bool) \<Rightarrow> string \<Rightarrow> string" where
  "strip_where P s = rev (dropWhile P (rev (dropWhile P s)))"

definition strip :: "string \<Rightarrow> string" where
  \<comment> \<open>\<open>s.strip()\<close>\<close>
  "strip s = strip_where isspace s"

definition strip_char :: "char \<Rightarrow> string \<Rightarrow> string" where
  \<comment> \<open>\<open>s.strip(c)\<close> for a one-character argument\<close>
  "strip_char c s = strip_where (\<lambda>x. x = c) s"

definition lower_char :: "char \<Rightarrow> char" where
  "lower_char c =
     (let n = (of_char c :: nat)
      in if (65 \<le> n \<and> n \<le> 90) \<or> (192 \<le> n \<and> n \<le> 222 \<and> n \<noteq> 215)
         then char_of (n + 32) else c)"

definition lower :: "string \<Rightarrow> string" where
  \<comment> \<open>\<open>s.lower()\<close>\<close>
  "lower s = map lower_char s"

subsection \<open>\<open>str(value)\<close>\<close>

definition digit_char :: "nat \<Rightarrow> char" where
  "digit_char n = char_of (48 + n)"

fun nat_str :: "nat \<Rightarrow> string" where
  "nat_str n = (if n < 10 then [digit_char n] else nat_str (n div 10) @ [digit_char (n mod 10)])"

definition int_str :: "int \<Rightarrow> string" where
  "int_str i = (if i < 0 then CHR ''-'' # nat_str (nat (- i)) else nat_str (nat i))"

definition hex_char :: "nat \<Rightarrow> char" where
  "hex_char n = (if n < 10 then char_of (48 + n) else char_of (87 + n))"

definition repr_char :: "char \<Rightarrow> char \<Rightarrow> string" where
  \<comment> \<open>one character of \<open>repr(s)\<close>, inside the quote character \<open>q\<close>\<close>
  "repr_char q c =
     (let n = (of_char c :: nat)
      in if c = q \<or> c = CHR 0x5C then [CHR 0x5C, c]
         else if n = 9 then [CHR 0x5C, CHR ''t'']
         else if n = 10 then [CHR 0x5C, CHR ''n'']
         else if n = 13 then [CHR 0x5C, CHR ''r'']
         else if n < 32 \<or> n = 127 \<or> (128 \<le> n \<and> n \<le> 160) \<or> n = 173
           then [CHR 0x5C, CHR ''x'', hex_char (n div 16), hex_char (n mod 16)]
         else [c])"

definition str_repr :: "string \<Rightarrow> string" where
  \<comment> \<open>\<open>repr(s)\<close> of a string: single quotes unless only those occur in it\<close>
  "str_repr s =
     (let q = (if CHR 0x27 \<in> set s \<and> CHR 0x22 \<notin> set s then CHR 0x22 else CHR 0x27)
      in q # concat (map (repr_char q) s) @ [q])"

fun join :: "string \<Rightarrow> string list \<Rightarrow> string" where
  \<comment> \<open>\<open>sep.join(xs)\<close>\<close>
  "join sep [] = []"
| "join sep [x] = x"
| "join sep (x # y # ys) = x @ sep @ join sep (y # ys)"

fun py_repr :: "pyval \<Rightarrow> string"
  and repr_elems :: "pyval list \<Rightarrow> string list"
  and repr_items :: "(string \<times> pyval) list \<Rightarrow> string list" where
  "py_repr PNone = ''None''"
| "py_repr (PBool b) = (if b then ''True'' else ''False'')"
| "py_repr (PInt i) = int_str i"
| "py_repr (PStr s) = str_repr s"
| "py_repr (PList xs) = ''['' @ join '', '' (repr_elems xs) @ '']''"
| "py_repr (PDict kvs) = ''{'' @ join '', '' (repr_items kvs) @ ''}''"
| "repr_elems [] = []"
| "repr_elems (x # xs) = py_repr x # repr_elems xs"
| "repr_items [] = []"
| "repr_items (kv # kvs) = (str_repr (fst kv) @ '': '' @ py_repr (snd kv)) # repr_items kvs"

definition py_str :: "pyval \<Rightarrow> string" where
  \<comment> \<open>\<open>str(value)\<close>\<close>
  "py_str v = (case v of PStr s \<Rightarrow> s | _ \<Rightarrow> py_repr v)"

fun truthy :: "pyval \<Rightarrow> bool" where
  \<comment> \<open>\<open>bool(value)\<close>\<close>
  "truthy PNone = False"
| "truthy (PBool b) = b"
| "truthy (PInt i) = (i \<noteq> 0)"
| "truthy (PStr s) = (s \<noteq> [])"
| "truthy (PList xs) = (xs \<noteq> [])"
| "truthy (PDict d) = (d \<noteq> [])"

section \<open>Flows (models.py)\<close>

record step_input =
  input_field :: string
  input_value :: pyval
  input_reference :: "string option"

text \<open>\<open>FlowStep\<close>; \<open>parallel_with\<close> is read nowhere and is left out.\<close>

record flow_step =
  step_skill :: string
  step_id :: string
  step_inputs :: "step_input list"
  condition :: "string option"

record response_mapping =
  mapping_field :: string
  mapping_reference :: "string option"
  mapping_default :: pyval

text \<open>\<open>FlowDefinition\<close>; the display configuration is handed through as it is.\<close>

record flow_definition =
  flow_id :: string
  flow_steps :: "flow_step list"
  flow_response :: "response_mapping list"
  flow_display :: pydict

text \<open>\<open>FlowResult\<close>, without the total latency.\<close>

record flow_result =
  fr_flow_id :: string
  fr_status :: skill_status
  fr_response :: pydict
  fr_step_results :: "(string \<times> skill_result) list"
  fr_display :: "pydict option"
  fr_error :: "string option"

section \<open>The registry (registry.py)\<close>

record registry =
  reg_skills :: "(string \<times> skill_manifest) list"
  reg_flows :: "(string \<times> flow_definition) list"

definition get_skill :: "registry \<Rightarrow> string \<Rightarrow> skill_manifest option" where
  "get_skill reg sid = map_of (reg_skills reg) sid"

definition get_flow :: "registry \<Rightarrow> string \<Rightarrow> flow_definition option" where
  "get_flow reg fid = map_of (reg_flows reg) fid"

definition register_skill :: "skill_manifest \<Rightarrow> registry \<Rightarrow> registry" where
  "register_skill m reg = reg\<lparr>reg_skills := AList.update (skill_id m) m (reg_skills reg)\<rparr>"

definition register_flow :: "flow_definition \<Rightarrow> registry \<Rightarrow> registry" where
  "register_flow f reg = reg\<lparr>reg_flows := AList.update (flow_id f) f (reg_flows reg)\<rparr>"

section \<open>The flow engine (engine.py)\<close>

datatype py_exception = RecursionError | TypeError | ValueError string

text \<open>
  The execution context \<open>{"request": request, "steps": {...}}\<close>; an entry of \<open>steps\<close> is
  the dictionary \<open>{"output": ..., "status": ...}\<close> of a step that has run.
\<close>

record flow_context =
  ctx_request :: pydict
  ctx_steps :: pydict

definition context_dict :: "flow_context \<Rightarrow> pydict" where
  "context_dict ctx = [(''request'', PDict (ctx_request ctx)), (''steps'', PDict (ctx_steps ctx))]"

subsection \<open>Variable resolution\<close>

fun traverse :: "pyval \<Rightarrow> string list \<Rightarrow> pyval" where
  \<comment> \<open>the loop \<open>for part in parts\<close> of \<open>_resolve_reference\<close>\<close>
  "traverse current [] = current"
| "traverse current (part # parts) =
     (case current of
        PDict d \<Rightarrow> (case map_of d part of
                      Some v \<Rightarrow> traverse v parts
                    | None \<Rightarrow> PNone)
      | _ \<Rightarrow> PNone)"

definition reference_path :: "string \<Rightarrow> string" where
  "reference_path reference =
     (if startswith reference ''${'' \<and> endswith reference ''}''
      then butlast (drop 2 reference) else reference)"

definition resolve_reference :: "string \<Rightarrow> flow_context \<Rightarrow> pyval" where
  "resolve_reference reference ctx =
     (case split_char CHR ''.'' (reference_path reference) of
        [] \<Rightarrow> PNone
      | first # rest \<Rightarrow>
          if py_in first (context_dict ctx) then
            traverse (PDict (context_dict ctx)) (first # rest)
          else if py_in first (ctx_steps ctx) then
            traverse (py_get (ctx_steps ctx) first) rest
          else PNone)"

definition replace_match :: "string \<Rightarrow> flow_context \<Rightarrow> string" where
  "replace_match ref ctx =
     (let v = resolve_reference ref ctx in if v \<noteq> PNone then py_str v else ref)"

text \<open>
  \<open>VAR_PATTERN.sub(replace_match, text)\<close> for the pattern \<open>\$\{([^}]+)\}\<close>: the leftmost
  occurrence of \<open>${\<close>, followed by at least one character other than \<open>}\<close> and then
  \<open>}\<close>, is replaced, and the scan goes on behind it.
\<close>

function resolve_string_vars :: "string \<Rightarrow> flow_context \<Rightarrow> string" where
  "resolve_string_vars [] ctx = []"
| "resolve_string_vars (c # cs) ctx =
     (if c = CHR ''$'' \<and> startswith cs ''{''
         \<and> takeWhile (\<lambda>x. x \<noteq> CHR ''}'') (tl cs) \<noteq> []
         \<and> dropWhile (\<lambda>x. x \<noteq> CHR ''}'') (tl cs) \<noteq> []
      then replace_match (''${'' @ takeWhile (\<lambda>x. x \<noteq> CHR ''}'') (tl cs) @ ''}'') ctx
             @ resolve_string_vars (tl (dropWhile (\<lambda>x. x \<noteq> CHR ''}'') (tl cs))) ctx
      else c # resolve_string_vars cs ctx)"
  by pat_completeness auto
termination
proof (relation "measure (\<lambda>(s, ctx). length s)")
  show "wf (measure (\<lambda>(s, ctx). length s))" by simp
next
  fix c :: char and cs :: string and ctx :: flow_context
  have "length (tl (dropWhile (\<lambda>x. x \<noteq> CHR ''}'') (tl cs))) \<le> length cs"
    using length_dropWhile_le [of "\<lambda>x. x \<noteq> CHR ''}''" "tl cs"] by simp
  then show "((tl (dropWhile (\<lambda>x. x \<noteq> CHR ''}'') (tl cs)), ctx), c # cs, ctx)
      \<in> measure (\<lambda>(s, ctx). length s)"
    by simp
next
  fix c :: char and cs :: string and ctx :: flow_context
  show "((cs, ctx), c # cs, ctx) \<in> measure (\<lambda>(s, ctx). length s)" by simp
qed

fun resolve_inputs_loop :: "step_input list \<Rightarrow> flow_context \<Rightarrow> pydict \<Rightarrow> pydict" where
  "resolve_inputs_loop [] ctx resolved = resolved"
| "resolve_inputs_loop (si # sis) ctx resolved =
     (let v = (if truthy_str (input_reference si)
               then resolve_reference (case input_reference si of Some r \<Rightarrow> r | None \<Rightarrow> []) ctx
               else input_value si);
          v' = (case v of PStr s \<Rightarrow> PStr (resolve_string_vars s ctx) | _ \<Rightarrow> v)
      in resolve_inputs_loop sis ctx (AList.update (input_field si) v' resolved))"

definition resolve_step_inputs :: "flow_step \<Rightarrow> flow_context \<Rightarrow> pydict" where
  "resolve_step_inputs step ctx = resolve_inputs_loop (step_inputs step) ctx []"

subsection \<open>Condition evaluation\<close>

definition unquote :: "string \<Rightarrow> string" where
  \<comment> \<open>\<open>s.strip().strip('"').strip("'")\<close>\<close>
  "unquote s = strip_char (CHR 0x27) (strip_char (CHR 0x22) (strip s))"

fun compare_ops :: "string list \<Rightarrow> string \<Rightarrow> bool option" where
  \<comment> \<open>the loop \<open>for op in ["!=", "=="]\<close>; \<open>None\<close> when it ends without returning\<close>
  "compare_ops [] resolved = None"
| "compare_ops (op # ops) resolved =
     (if contains op resolved then
        (let left = unquote (before_first op resolved);
             right = unquote (after_first op resolved)
         in if op = ''=='' then Some (left = right) else Some (left \<noteq> right))
      else compare_ops ops resolved)"

definition is_empty_value :: "pyval \<Rightarrow> bool" where
  \<comment> \<open>the test of the \<open>is empty\<close> branch\<close>
  "is_empty_value actual_val =
     (case actual_val of
        PList xs \<Rightarrow> length xs = 0
      | PDict d \<Rightarrow> length d = 0
      | _ \<Rightarrow> \<not> truthy actual_val)"

definition is_not_empty_value :: "pyval \<Rightarrow> bool" where
  \<comment> \<open>the test of the \<open>is not empty\<close> branch\<close>
  "is_not_empty_value actual_val =
     (case actual_val of
        PList xs \<Rightarrow> length xs > 0
      | PDict d \<Rightarrow> length d > 0
      | _ \<Rightarrow> truthy actual_val)"

text \<open>
  The body of the \<open>try\<close> block of \<open>_evaluate_condition\<close>. A result comes with the
  warnings that the nested activations have logged. The recursive call on the remainder
  behind \<open>not\<close> is the parameter \<open>recurse\<close>: it returns the inner result, or raises when
  the interpreter has no room for another activation or when the inner activation
  raises. The variable \<open>field_ref\<close> of the two empty-check branches is assigned and never
  read; it is left out.
\<close>

type_synonym warning = "string \<times> py_exception"

definition condition_body ::
  "(string \<Rightarrow> py_exception + bool \<times> warning list) \<Rightarrow> string \<Rightarrow> flow_context
     \<Rightarrow> py_exception + bool \<times> warning list" where
  "condition_body recurse cond ctx =
     (let resolved = resolve_string_vars cond ctx in
      if contains ''is empty'' resolved then
        Inr (is_empty_value (resolve_reference (strip (before_first ''is empty'' cond)) ctx),
             [])
      else if contains ''is not empty'' resolved then
        Inr (is_not_empty_value
               (resolve_reference (strip (before_first ''is not empty'' cond)) ctx), [])
      else
        (case compare_ops [''!='', ''==''] resolved of
           Some b \<Rightarrow> Inr (b, [])
         | None \<Rightarrow>
             if startswith (strip resolved) ''not '' then
               (case recurse (drop 4 (strip resolved)) of
                  Inl e \<Rightarrow> Inl e
                | Inr r \<Rightarrow> Inr (\<not> fst r, snd r))
             else Inr (resolved \<noteq> [], [])))"

text \<open>
  The handler \<open>except Exception as e: logger.warning(...); return False\<close>. The call of
  \<open>logger.warning\<close> is a Python call like any other: it needs an activation for
  \<open>Logger.warning\<close> itself and \<open>log_frames\<close> more for what the logging module calls below
  it, a number that depends on the logging configuration. When the handler runs because
  the stack is exhausted, this call raises \<open>RecursionError\<close> again, and the new exception
  leaves the activation of \<open>_evaluate_condition\<close>; nothing is logged then, and \<open>False\<close> is
  not returned. \<open>depth\<close> is the number of nested activations that still fit above the
  activation that handles the exception.
\<close>

definition logger_warning :: "nat \<Rightarrow> nat \<Rightarrow> warning \<Rightarrow> py_exception + warning list" where
  "logger_warning log_frames depth w =
     (if depth \<le> log_frames then Inl RecursionError else Inr [w])"

definition except_handler ::
  "nat \<Rightarrow> nat \<Rightarrow> string \<Rightarrow> py_exception + bool \<times> warning list
     \<Rightarrow> py_exception + bool \<times> warning list" where
  "except_handler log_frames depth cond r =
     (case r of
        Inl e \<Rightarrow>
          (case logger_warning log_frames depth (cond, e) of
             Inl e' \<Rightarrow> Inl e'
           | Inr ws \<Rightarrow> Inr (False, ws))
      | Inr res \<Rightarrow> Inr res)"

text \<open>
  \<open>_evaluate_condition\<close>, with the warnings it logs. The interpolated remainder behind
  \<open>not\<close> can contain the condition again, so the recursion need not end by itself: it
  ends at Python's recursion limit with a \<open>RecursionError\<close>, raised in the activation
  that makes the call and handled by its \<open>except\<close> clause. The handlers of the deepest
  activations cannot log and raise again; the first enclosing activation with room for the
  logger returns \<open>False\<close>, and every activation around it negates what it gets. The
  second argument is the number of nested activations of \<open>_evaluate_condition\<close> that
  still fit, each with the room that the helper calls of its body need; the first is the
  number of activations that the logger needs below \<open>Logger.warning\<close>. An exception that
  leaves \<open>_evaluate_condition\<close> is the value \<open>Inl\<close>.
\<close>

fun nested_call ::
    "nat \<Rightarrow> nat \<Rightarrow> string \<Rightarrow> flow_context \<Rightarrow> py_exception + bool \<times> warning list"
  and evaluate_condition_log ::
    "nat \<Rightarrow> nat \<Rightarrow> string \<Rightarrow> flow_context \<Rightarrow> py_exception + bool \<times> warning list" where
  "nested_call log_frames 0 inner ctx = Inl RecursionError"
| "nested_call log_frames (Suc depth) inner ctx = evaluate_condition_log log_frames depth inner ctx"
| "evaluate_condition_log log_frames depth cond ctx =
     except_handler log_frames depth cond
       (condition_body (\<lambda>inner. nested_call log_frames depth inner ctx) cond ctx)"

definition evaluate_condition ::
  "nat \<Rightarrow> nat \<Rightarrow> string \<Rightarrow> flow_context \<Rightarrow> py_exception + bool" where
  "evaluate_condition log_frames depth cond ctx =
     (case evaluate_condition_log log_frames depth cond ctx of
        Inl e \<Rightarrow> Inl e
      | Inr res \<Rightarrow> Inr (fst res))"

subsection \<open>Response building\<close>

fun build_response_loop :: "response_mapping list \<Rightarrow> flow_context \<Rightarrow> pydict \<Rightarrow> pydict" where
  "build_response_loop [] ctx response = response"
| "build_response_loop (m # ms) ctx response =
     (if truthy_str (mapping_reference m) then
        (let v = resolve_reference (case mapping_reference m of Some r \<Rightarrow> r | None \<Rightarrow> []) ctx
         in build_response_loop ms ctx
              (AList.update (mapping_field m) (if v \<noteq> PNone then v else mapping_default m)
                 response))
      else build_response_loop ms ctx (AList.update (mapping_field m) (mapping_default m) response))"

definition build_response :: "flow_definition \<Rightarrow> flow_context \<Rightarrow> pydict" where
  "build_response flow ctx = build_response_loop (flow_response flow) ctx []"

subsection \<open>Executor management\<close>

datatype executor_class =
    LLMCallExecutor | GenieQueryExecutor | WebSearchExecutor
  | LakebaseQueryExecutor | FunctionExecutor | PromptRegistryExecutor

fun EXECUTOR_MAP :: "skill_type \<Rightarrow> executor_class option" where
  "EXECUTOR_MAP LLM_CALL = Some LLMCallExecutor"
| "EXECUTOR_MAP GENIE_QUERY = Some GenieQueryExecutor"
| "EXECUTOR_MAP WEB_SEARCH = Some WebSearchExecutor"
| "EXECUTOR_MAP LAKEBASE_QUERY = Some LakebaseQueryExecutor"
| "EXECUTOR_MAP FUNCTION = Some FunctionExecutor"
| "EXECUTOR_MAP PROMPT_REGISTRY = Some PromptRegistryExecutor"

text \<open>
  An executor is an instance of its class that holds the manifest it was made from. The
  \<open>ValueError\<close> of \<open>_get_executor\<close> carries the fixed part of its message.
\<close>

record executor =
  executor_class_of :: executor_class
  manifest :: skill_manifest

type_synonym executor_cache = "(string \<times> executor) list"

definition get_executor ::
  "executor_cache \<Rightarrow> skill_manifest \<Rightarrow> py_exception + executor \<times> executor_cache" where
  "get_executor cache skill =
     (case map_of cache (skill_id skill) of
        Some ex \<Rightarrow> Inr (ex, cache)
      | None \<Rightarrow>
          (case EXECUTOR_MAP (skill_type_of skill) of
             None \<Rightarrow> Inl (ValueError ''No executor for skill type'')
           | Some cls \<Rightarrow>
               (let ex = \<lparr>executor_class_of = cls, manifest = skill\<rparr>
                in Inr (ex, AList.update (skill_id skill) ex cache))))"

subsection \<open>Flow execution\<close>

text \<open>
  What the loop over the steps changes: the \<open>steps\<close> entry of the context, the step
  results, the executor cache of the engine and the log of the calls of the hooks.
\<close>

record loop_state =
  st_steps :: pydict
  st_step_results :: "(string \<times> skill_result) list"
  st_cache :: executor_cache
  st_log :: "call list"

text \<open>
  The passthrough block behind the call of the executor. \<open>key in resolved_inputs\<close> hashes
  the key, so a list or a dictionary under \<open>_field\<close> raises a \<open>TypeError\<close>.
\<close>

definition first_output_field :: "skill_manifest \<Rightarrow> string" where
  \<comment> \<open>\<open>skill.output_schema[0].name if skill.output_schema else "result"\<close>\<close>
  "first_output_field skill = (case output_schema skill of [] \<Rightarrow> ''result'' | f # fs \<Rightarrow> name f)"

definition handle_passthrough ::
  "skill_manifest \<Rightarrow> pydict \<Rightarrow> skill_result \<Rightarrow> py_exception + skill_result" where
  "handle_passthrough skill resolved_inputs result =
     (if result_status result = FAILURE
         \<and> py_get (result_output result) ''_fallback'' = PStr ''passthrough'' then
        (case (case map_of (result_output result) ''_field'' of
                 None \<Rightarrow> PStr [] | Some v \<Rightarrow> v) of
           PStr field \<Rightarrow>
             if py_in field resolved_inputs then
               Inr (result\<lparr>result_output :=
                      [(first_output_field skill, py_get resolved_inputs field)]\<rparr>)
             else Inr result
         | PList xs \<Rightarrow> Inl TypeError
         | PDict d \<Rightarrow> Inl TypeError
         | _ \<Rightarrow> Inr result)
      else Inr result)"

definition context_entry :: "pydict \<Rightarrow> string \<Rightarrow> pyval" where
  \<comment> \<open>\<open>{"output": output, "status": status}\<close>\<close>
  "context_entry out st = PDict [(''output'', PDict out), (''status'', PStr st)]"

definition record_step :: "string \<Rightarrow> skill_result \<Rightarrow> pydict \<Rightarrow> string \<Rightarrow> loop_state \<Rightarrow> loop_state" where
  \<comment> \<open>\<open>step_results[step.id] = result; context["steps"][step.id] = {...}\<close>\<close>
  "record_step sid result out st_text st =
     st\<lparr>st_step_results := AList.update sid result (st_step_results st),
        st_steps := AList.update sid (context_entry out st_text) (st_steps st)\<rparr>"

definition skip_result :: "flow_step \<Rightarrow> skill_result" where
  \<comment> \<open>the result recorded for a step whose condition is not met\<close>
  "skip_result step =
     \<lparr>result_skill_id = step_skill step, result_step_id = step_id step,
      result_status = SKIPPED, result_output = [], result_error = None,
      result_metadata = [(''reason'', PStr ''condition_not_met'')]\<rparr>"

definition skill_not_found_result :: "flow_step \<Rightarrow> skill_result" where
  \<comment> \<open>the result recorded for a step whose skill is not in the registry\<close>
  "skill_not_found_result step =
     \<lparr>result_skill_id = step_skill step, result_step_id = step_id step,
      result_status = FAILURE, result_output = [],
      result_error = Some (''Skill not found: '' @ step_skill step),
      result_metadata = []\<rparr>"

definition condition_not_met ::
  "nat \<Rightarrow> nat \<Rightarrow> flow_step \<Rightarrow> flow_context \<Rightarrow> py_exception + bool" where
  \<comment> \<open>\<open>step.condition and not self._evaluate_condition(step.condition, context)\<close>\<close>
  "condition_not_met log_frames depth step ctx =
     (if truthy_str (condition step) then
        (case evaluate_condition log_frames depth
                (case condition step of Some c \<Rightarrow> c | None \<Rightarrow> []) ctx of
           Inl e \<Rightarrow> Inl e
         | Inr b \<Rightarrow> Inr (\<not> b))
      else Inr False)"

definition run_step ::
  "implementation \<Rightarrow> nat \<Rightarrow> nat \<Rightarrow> registry \<Rightarrow> bool \<Rightarrow> pydict \<Rightarrow> flow_step \<Rightarrow> loop_state
     \<Rightarrow> py_exception + loop_state" where
  "run_step impl log_frames depth reg mock_mode request step st =
     (let ctx = \<lparr>ctx_request = request, ctx_steps = st_steps st\<rparr> in
      case condition_not_met log_frames depth step ctx of
        Inl e \<Rightarrow> Inl e
      | Inr True \<Rightarrow>
          Inr (record_step (step_id step) (skip_result step) [] ''skipped'' st)
      | Inr False \<Rightarrow>
        (let resolved_inputs = resolve_step_inputs step ctx in
         case get_skill reg (step_skill step) of
           None \<Rightarrow>
             Inr (record_step (step_id step) (skill_not_found_result step) [] ''failure'' st)
         | Some skill \<Rightarrow>
             (case get_executor (st_cache st) skill of
                Inl e \<Rightarrow> Inl e
              | Inr (ex, cache') \<Rightarrow>
                  (case execute impl (manifest ex) resolved_inputs (step_id step) mock_mode
                          (st_log st) of
                     (result, log') \<Rightarrow>
                       (case handle_passthrough skill resolved_inputs result of
                          Inl e \<Rightarrow> Inl e
                        | Inr result' \<Rightarrow>
                            Inr (record_step (step_id step) result' (result_output result')
                                   (status_value (result_status result'))
                                   (st\<lparr>st_cache := cache', st_log := log'\<rparr>)))))))"

fun run_steps ::
  "implementation \<Rightarrow> nat \<Rightarrow> nat \<Rightarrow> registry \<Rightarrow> bool \<Rightarrow> pydict \<Rightarrow> flow_step list
     \<Rightarrow> loop_state \<Rightarrow> py_exception + loop_state" where
  "run_steps impl log_frames depth reg mock_mode request [] st = Inr st"
| "run_steps impl log_frames depth reg mock_mode request (step # steps) st =
     (case run_step impl log_frames depth reg mock_mode request step st of
        Inl e \<Rightarrow> Inl e
      | Inr st' \<Rightarrow> run_steps impl log_frames depth reg mock_mode request steps st')"

definition resolve_mock_mode :: "bool option \<Rightarrow> string option \<Rightarrow> bool" where
  \<comment> \<open>the second argument is the environment variable \<open>APP_MOCK_MODE\<close>\<close>
  "resolve_mock_mode mock_mode env =
     (case mock_mode of
        Some b \<Rightarrow> b
      | None \<Rightarrow> lower (case env of None \<Rightarrow> ''false'' | Some v \<Rightarrow> v) = ''true'')"

text \<open>
  \<open>execute_flow\<close>. The engine is its registry and its executor cache; the result comes
  with the cache and the call log as the flow leaves them. An exception that leaves
  \<open>execute_flow\<close> is the value \<open>Inl\<close>.
\<close>

definition execute_flow ::
  "implementation \<Rightarrow> nat \<Rightarrow> nat \<Rightarrow> string option \<Rightarrow> registry \<Rightarrow> executor_cache \<Rightarrow> call list
     \<Rightarrow> string \<Rightarrow> pydict \<Rightarrow> bool option
     \<Rightarrow> py_exception + flow_result \<times> executor_cache \<times> call list" where
  "execute_flow impl log_frames depth env reg cache log fid request mock_mode =
     (let mock = resolve_mock_mode mock_mode env in
      case get_flow reg fid of
        None \<Rightarrow>
          Inr (\<lparr>fr_flow_id = fid, fr_status = FAILURE, fr_response = [],
                fr_step_results = [], fr_display = None,
                fr_error = Some (''Flow not found: '' @ fid)\<rparr>, cache, log)
      | Some flow \<Rightarrow>
          (case run_steps impl log_frames depth reg mock request (flow_steps flow)
                  \<lparr>st_steps = [], st_step_results = [], st_cache = cache, st_log = log\<rparr> of
             Inl e \<Rightarrow> Inl e
           | Inr st \<Rightarrow>
               Inr (\<lparr>fr_flow_id = fid, fr_status = SUCCESS,
                     fr_response =
                       build_response flow \<lparr>ctx_request = request, ctx_steps = st_steps st\<rparr>,
                     fr_step_results = st_step_results st,
                     fr_display = Some (flow_display flow),
                     fr_error = None\<rparr>, st_cache st, st_log st)))"

section \<open>Example data\<close>

text \<open>Concrete manifests, implementations and flows on which the theorems are instantiated.\<close>

definition impl_fails :: implementation where
  "impl_fails log kind m inputs = RaisedError ''boom''"

definition impl_echo :: implementation where
  "impl_echo log kind m inputs = Returned inputs"

definition field_q :: field_schema where
  "field_q = \<lparr>name = ''q'', type_tag = ''string'', required = True, default_of = PNone\<rparr>"

definition fallback_skip :: fallback_config where
  \<comment> \<open>the defaults of \<open>FallbackConfig\<close>\<close>
  "fallback_skip = \<lparr>strategy = SKIP, passthrough_field = None, default_value = PNone\<rparr>"

definition test_manifest :: "fallback_config \<Rightarrow> skill_manifest" where
  "test_manifest fb =
     \<lparr>skill_id = ''test_skill'', skill_type_of = FUNCTION, config = [],
      input_schema = [field_q], output_schema = [], fallback = fb, mock_enabled = True\<rparr>"

definition test_context :: flow_context where
  "test_context =
     \<lparr>ctx_request = [(''message'', PStr ''hello world''), (''count'', PInt 0)],
      ctx_steps = [(''genie'', context_entry [(''status'', PStr ''ok'')] ''success'')]\<rparr>"

definition cond_eq_ok :: string where
  \<comment> \<open>\<open>${genie.output.status} == "ok"\<close>\<close>
  "cond_eq_ok = ''${genie.output.status} == '' @ [CHR 0x22] @ ''ok'' @ [CHR 0x22]"

definition cond_ne_ok :: string where
  \<comment> \<open>\<open>${genie.output.status} != "ok"\<close>\<close>
  "cond_ne_ok = ''${genie.output.status} != '' @ [CHR 0x22] @ ''ok'' @ [CHR 0x22]"

definition loop_request :: pydict where
  \<comment> \<open>a request whose field \<open>x\<close> holds a condition that refers to \<open>x\<close>\<close>
  "loop_request = [(''x'', PStr ''not ${request.x}'')]"

definition loop_context :: flow_context where
  "loop_context = \<lparr>ctx_request = loop_request, ctx_steps = []\<rparr>"

definition plain_manifest :: skill_manifest where
  \<comment> \<open>a skill without input fields\<close>
  "plain_manifest =
     \<lparr>skill_id = ''test_skill'', skill_type_of = FUNCTION, config = [],
      input_schema = [], output_schema = [], fallback = fallback_skip, mock_enabled = True\<rparr>"

definition loop_step :: flow_step where
  "loop_step =
     \<lparr>step_skill = ''test_skill'', step_id = ''step1'', step_inputs = [],
      condition = Some ''not ${request.x}''\<rparr>"

definition loop_flow :: flow_definition where
  "loop_flow =
     \<lparr>flow_id = ''loop_flow'', flow_steps = [loop_step], flow_response = [],
      flow_display = []\<rparr>"

definition loop_registry :: registry where
  "loop_registry =
     \<lparr>reg_skills = [(''test_skill'', plain_manifest)],
      reg_flows = [(''loop_flow'', loop_flow)]\<rparr>"

definition empty_state :: loop_state where
  "empty_state = \<lparr>st_steps = [], st_step_results = [], st_cache = [], st_log = []\<rparr>"

definition empty_registry :: registry where
  "empty_registry = \<lparr>reg_skills = [], reg_flows = []\<rparr>"

definition fallback_passthrough_q :: fallback_config where
  "fallback_passthrough_q =
     \<lparr>strategy = PASSTHROUGH, passthrough_field = Some ''q'', default_value = PNone\<rparr>"

definition passthrough_registry :: registry where
  "passthrough_registry =
     \<lparr>reg_skills = [(''test_skill'', test_manifest fallback_passthrough_q)], reg_flows = []\<rparr>"

definition step_with_q :: flow_step where
  "step_with_q =
     \<lparr>step_skill = ''test_skill'', step_id = ''step1'',
      step_inputs = [\<lparr>input_field = ''q'', input_value = PNone,
                      input_reference = Some ''${request.message}''\<rparr>],
      condition = None\<rparr>"

definition step_without_q :: flow_step where
  "step_without_q =
     \<lparr>step_skill = ''test_skill'', step_id = ''step1'', step_inputs = [], condition = None\<rparr>"

definition test_executor :: executor where
  "test_executor =
     \<lparr>executor_class_of = FunctionExecutor, manifest = test_manifest fallback_passthrough_q\<rparr>"

definition fallback_marker_list :: fallback_config where
  \<comment> \<open>a default value that has the shape of the passthrough marker, with a list as field\<close>
  "fallback_marker_list =
     \<lparr>strategy = DEFAULT_VALUE, passthrough_field = None,
      default_value = PDict [(''_fallback'', PStr ''passthrough''), (''_field'', PList [])]\<rparr>"

definition crash_flow :: flow_definition where
  "crash_flow =
     \<lparr>flow_id = ''test_flow'', flow_steps = [step_without_q], flow_response = [],
      flow_display = []\<rparr>"

definition crash_registry :: registry where
  "crash_registry =
     \<lparr>reg_skills = [(''test_skill'', test_manifest fallback_marker_list)],
      reg_flows = [(''test_flow'', crash_flow)]\<rparr>"

section \<open>Properties of the invocation lifecycle\<close>

lemma validate_fields_first_missing:
  "f \<in> set fs \<Longrightarrow> required f \<Longrightarrow> \<not> py_in (name f) inputs \<Longrightarrow>
   \<exists>pre g post. fs = pre @ g # post \<and> required g \<and> \<not> py_in (name g) inputs \<and>
     (\<forall>h \<in> set pre. \<not> required h \<or> py_in (name h) inputs) \<and>
     validate_fields fs inputs = Some (missing_input_error (name g))"
proof (induction fs)
  case Nil
  then show ?case by simp
next
  case (Cons a fs)
  show ?case
  proof (cases "required a \<and> \<not> py_in (name a) inputs")
    case True
    then have "a # fs = [] @ a # fs \<and> required a \<and> \<not> py_in (name a) inputs \<and>
      (\<forall>h \<in> set []. \<not> required h \<or> py_in (name h) inputs) \<and>
      validate_fields (a # fs) inputs = Some (missing_input_error (name a))"
      by simp
    then show ?thesis by blast
  next
    case False
    with Cons.prems have "f \<in> set fs" by auto
    from Cons.IH [OF this Cons.prems(2,3)] obtain pre g post where
      h: "fs = pre @ g # post" "required g" "\<not> py_in (name g) inputs"
         "\<forall>h \<in> set pre. \<not> required h \<or> py_in (name h) inputs"
         "validate_fields fs inputs = Some (missing_input_error (name g))"
      by blast
    from h False have "a # fs = (a # pre) @ g # post \<and> required g \<and> \<not> py_in (name g) inputs \<and>
      (\<forall>h \<in> set (a # pre). \<not> required h \<or> py_in (name h) inputs) \<and>
      validate_fields (a # fs) inputs = Some (missing_input_error (name g))"
      by auto
    then show ?thesis by blast
  qed
qed

lemma execute_validation_failure:
  assumes "validate_inputs m inputs = Some (missing_input_error n)"
  shows "execute impl m inputs sid mock_mode log
         = (handle_fallback m sid (missing_input_error n), log)"
  using assms by (simp add: execute_def truthy_str_def missing_input_error_def)

lemma handle_fallback_error: "result_error (handle_fallback m sid e) = Some e"
  by (simp add: handle_fallback_def Let_def)

lemma handle_fallback_status:
  "result_status (handle_fallback m sid e) =
     (if (strategy (fallback m) = PASSTHROUGH \<and> truthy_str (passthrough_field (fallback m)))
         \<or> (strategy (fallback m) = DEFAULT_VALUE \<and> default_value (fallback m) \<noteq> PNone)
      then FAILURE else SKIPPED)"
  by (simp add: handle_fallback_def Let_def)

lemma execute_failure_is_fallback:
  assumes "invocation_fails impl m inputs mock_mode log"
  shows "\<exists>e. fst (execute impl m inputs sid mock_mode log) = handle_fallback m sid e"
  using assms
  by (auto simp: invocation_fails_def execute_def Let_def split: outcome.splits)

text \<open>
  C7. A failing invocation under the fallback strategy DefaultValue with a configured
  value \<open>V\<close> (a value other than \<open>None\<close>, which is the unset default) returns status
  Failure and the output \<open>V\<close> itself when \<open>V\<close> is a dictionary, else \<open>{"result": V}\<close>.
\<close>

theorem default_value_fallback:
  assumes "invocation_fails impl m inputs mock_mode log"
    and "strategy (fallback m) = DEFAULT_VALUE"
    and "default_value (fallback m) = V"
    and "V \<noteq> PNone"
  shows "result_status (fst (execute impl m inputs sid mock_mode log)) = FAILURE
       \<and> result_output (fst (execute impl m inputs sid mock_mode log))
           = (case V of PDict d \<Rightarrow> d | _ \<Rightarrow> [(''result'', V)])"
proof -
  from execute_failure_is_fallback [OF assms(1)] obtain e where
    "fst (execute impl m inputs sid mock_mode log) = handle_fallback m sid e" by blast
  then show ?thesis using assms(2-4)
    by (cases V) (simp_all add: handle_fallback_def Let_def)
qed

theorem default_value_fallback_witness:
  "invocation_fails impl_fails
     (test_manifest \<lparr>strategy = DEFAULT_VALUE, passthrough_field = None,
                     default_value = PStr ''fallback_data''\<rparr>)
     [(''q'', PStr ''test'')] False []
   \<and> result_status (fst (execute impl_fails
        (test_manifest \<lparr>strategy = DEFAULT_VALUE, passthrough_field = None,
                        default_value = PStr ''fallback_data''\<rparr>)
        [(''q'', PStr ''test'')] ''test'' False [])) = FAILURE
   \<and> result_output (fst (execute impl_fails
        (test_manifest \<lparr>strategy = DEFAULT_VALUE, passthrough_field = None,
                        default_value = PStr ''fallback_data''\<rparr>)
        [(''q'', PStr ''test'')] ''test'' False [])) = [(''result'', PStr ''fallback_data'')]"
proof -
  let ?m = "test_manifest \<lparr>strategy = DEFAULT_VALUE, passthrough_field = None,
                           default_value = PStr ''fallback_data''\<rparr>"
  have f: "invocation_fails impl_fails ?m [(''q'', PStr ''test'')] False []"
    by (simp add: invocation_fails_def impl_fails_def)
  have s: "strategy (fallback ?m) = DEFAULT_VALUE" by (simp add: test_manifest_def)
  have d: "default_value (fallback ?m) = PStr ''fallback_data''" by (simp add: test_manifest_def)
  show ?thesis
    using f default_value_fallback [OF f s d, of "''test''"] by simp
qed

text \<open>
  C9. When a required input field of the manifest is absent from the inputs, neither the
  real nor the mock hook is called: the call log is as before, whatever the mock flag, and
  the result does not depend on the implementation.
\<close>

theorem missing_input_never_calls:
  assumes "f \<in> set (input_schema m)" and "required f" and "\<not> py_in (name f) inputs"
  shows "snd (execute impl m inputs sid mock_mode log) = log
       \<and> fst (execute impl m inputs sid mock_mode log)
           = fst (execute impl' m inputs sid mock_mode' log)"
proof -
  have "\<exists>g :: field_schema. validate_inputs m inputs = Some (missing_input_error (name g))"
    using validate_fields_first_missing [OF assms] unfolding validate_inputs_def by blast
  then obtain g :: field_schema where
    "validate_inputs m inputs = Some (missing_input_error (name g))" ..
  then show ?thesis by (simp add: execute_validation_failure)
qed

theorem missing_input_never_calls_witness:
  "field_q \<in> set (input_schema (test_manifest fallback_skip)) \<and> required field_q
   \<and> \<not> py_in (name field_q) []
   \<and> snd (execute impl_echo (test_manifest fallback_skip) [] ''test'' True []) = []
   \<and> fst (execute impl_echo (test_manifest fallback_skip) [] ''test'' True [])
       = fst (execute impl_fails (test_manifest fallback_skip) [] ''test'' False [])"
proof -
  have a: "field_q \<in> set (input_schema (test_manifest fallback_skip))"
    by (simp add: test_manifest_def)
  have b: "required field_q" by (simp add: field_q_def)
  have c: "\<not> py_in (name field_q) []" by (simp add: py_in_def)
  show ?thesis
    using a b c missing_input_never_calls [OF a b c, of impl_echo "''test''" True "[]" impl_fails False]
    by simp
qed

text \<open>
  C1, as stated: a missing required input gives status Failure. With the default fallback
  (Skip) the status is Skipped.
\<close>

theorem missing_input_status_counterexample:
  "field_q \<in> set (input_schema (test_manifest fallback_skip)) \<and> required field_q
   \<and> \<not> py_in (name field_q) []
   \<and> result_status (fst (execute impl_echo (test_manifest fallback_skip) [] ''test'' False []))
       \<noteq> FAILURE"
  by (simp add: test_manifest_def field_q_def fallback_skip_def py_in_def execute_def
      validate_inputs_def truthy_str_def handle_fallback_def missing_input_error_def)

text \<open>
  C1, amended. When a required input field is absent, the result carries the error text
  \<open>Missing required input: \<close> followed by the name of the first field of the input schema
  that is required and absent. The status follows the fallback policy: Failure under
  Passthrough with a non-empty field or DefaultValue with a value other than \<open>None\<close>,
  Skipped otherwise.
\<close>

theorem missing_input_result:
  assumes "f \<in> set (input_schema m)" and "required f" and "\<not> py_in (name f) inputs"
  shows "\<exists>pre g post. input_schema m = pre @ g # post
       \<and> required g \<and> \<not> py_in (name g) inputs
       \<and> (\<forall>h \<in> set pre. \<not> required h \<or> py_in (name h) inputs)
       \<and> result_error (fst (execute impl m inputs sid mock_mode log))
           = Some (missing_input_error (name g))
       \<and> result_status (fst (execute impl m inputs sid mock_mode log))
           = (if (strategy (fallback m) = PASSTHROUGH
                    \<and> truthy_str (passthrough_field (fallback m)))
                 \<or> (strategy (fallback m) = DEFAULT_VALUE
                    \<and> default_value (fallback m) \<noteq> PNone)
              then FAILURE else SKIPPED)"
proof -
  from validate_fields_first_missing [OF assms] obtain pre g post where
    h: "input_schema m = pre @ g # post" "required g" "\<not> py_in (name g) inputs"
       "\<forall>h \<in> set pre. \<not> required h \<or> py_in (name h) inputs"
       "validate_inputs m inputs = Some (missing_input_error (name g))"
    unfolding validate_inputs_def by blast
  have "fst (execute impl m inputs sid mock_mode log)
          = handle_fallback m sid (missing_input_error (name g))"
    using h(5) by (simp add: execute_validation_failure)
  with h(1-4) show ?thesis
    by (metis handle_fallback_error handle_fallback_status)
qed

theorem missing_input_result_witness:
  "field_q \<in> set (input_schema (test_manifest fallback_skip)) \<and> required field_q
   \<and> \<not> py_in (name field_q) []
   \<and> result_error (fst (execute impl_echo (test_manifest fallback_skip) [] ''test'' False []))
       = Some ''Missing required input: q''
   \<and> result_status (fst (execute impl_echo (test_manifest fallback_skip) [] ''test'' False []))
       = SKIPPED"
proof -
  have a: "field_q \<in> set (input_schema (test_manifest fallback_skip))"
    by (simp add: test_manifest_def)
  have b: "required field_q" by (simp add: field_q_def)
  have c: "\<not> py_in (name field_q) []" by (simp add: py_in_def)
  have s: "input_schema (test_manifest fallback_skip) = [field_q]"
    by (simp add: test_manifest_def)
  from missing_input_result [OF a b c, of impl_echo "''test''" False "[]"]
  obtain pre g post where
    h: "input_schema (test_manifest fallback_skip) = pre @ g # post"
       "result_error (fst (execute impl_echo (test_manifest fallback_skip) [] ''test'' False []))
          = Some (missing_input_error (name g))"
       "result_status (fst (execute impl_echo (test_manifest fallback_skip) [] ''test'' False []))
          = (if (strategy (fallback (test_manifest fallback_skip)) = PASSTHROUGH
                    \<and> truthy_str (passthrough_field (fallback (test_manifest fallback_skip))))
                 \<or> (strategy (fallback (test_manifest fallback_skip)) = DEFAULT_VALUE
                    \<and> default_value (fallback (test_manifest fallback_skip)) \<noteq> PNone)
              then FAILURE else SKIPPED)"
    by blast
  from h(1) s have "pre = [] \<and> g = field_q"
    by (cases pre) auto
  with h(2,3) a b c show ?thesis
    by (simp add: field_q_def test_manifest_def fallback_skip_def missing_input_error_def)
qed

section \<open>Reference resolution\<close>

lemma split_char_single: "c \<notin> set a \<Longrightarrow> split_char c a = [a]"
  by (induction a) auto

lemma split_char_append: "c \<notin> set a \<Longrightarrow> split_char c (a @ c # b) = a # split_char c b"
  by (induction a) auto

lemma reference_path_braces: "reference_path (''${'' @ p @ ''}'') = p"
  by (simp add: reference_path_def startswith_def endswith_def butlast_append)

lemma resolve_request_path:
  "resolve_reference (''${request.'' @ X @ ''}'') ctx
     = traverse (PDict (ctx_request ctx)) (split_char CHR ''.'' X)"
proof -
  have p: "reference_path (''${request.'' @ X @ ''}'') = ''request'' @ CHR ''.'' # X"
    using reference_path_braces [of "''request.'' @ X"] by simp
  have "split_char CHR ''.'' (''request'' @ CHR ''.'' # X) = ''request'' # split_char CHR ''.'' X"
    by (rule split_char_append) simp
  with p show ?thesis
    by (simp add: resolve_reference_def py_in_def context_dict_def)
qed

lemma resolve_step_path:
  assumes "CHR ''.'' \<notin> set sid" and "sid \<noteq> ''request''" and "sid \<noteq> ''steps''"
    and "map_of (ctx_steps ctx) sid = Some entry"
  shows "resolve_reference (''${'' @ sid @ ''.'' @ Y @ ''}'') ctx
     = traverse entry (split_char CHR ''.'' Y)"
proof -
  have p: "reference_path (''${'' @ sid @ ''.'' @ Y @ ''}'') = sid @ CHR ''.'' # Y"
    using reference_path_braces [of "sid @ ''.'' @ Y"] by simp
  have "split_char CHR ''.'' (sid @ CHR ''.'' # Y) = sid # split_char CHR ''.'' Y"
    by (rule split_char_append) (rule assms(1))
  with p assms(2-4) show ?thesis
    by (simp add: resolve_reference_def py_in_def py_get_def context_dict_def)
qed

lemma resolve_request_field:
  "CHR ''.'' \<notin> set X \<Longrightarrow>
     resolve_reference (''${request.'' @ X @ ''}'') ctx
       = (case map_of (ctx_request ctx) X of Some v \<Rightarrow> v | None \<Rightarrow> PNone)"
  using resolve_request_path [of X ctx]
  by (simp add: split_char_single split: option.splits)

lemma resolve_unknown_first:
  "split_char CHR ''.'' (reference_path reference) = first # rest \<Longrightarrow>
   first \<noteq> ''request'' \<Longrightarrow> first \<noteq> ''steps'' \<Longrightarrow> \<not> py_in first (ctx_steps ctx) \<Longrightarrow>
   resolve_reference reference ctx = PNone"
  by (simp add: resolve_reference_def py_in_def context_dict_def)

lemma traverse_not_dict: "\<forall>d. current \<noteq> PDict d \<Longrightarrow> traverse current (part # parts) = PNone"
  by (cases current) simp_all

text \<open>
  C5. For a field name \<open>X\<close> (one path segment), \<open>${request.X}\<close> resolves to \<open>request[X]\<close>
  when \<open>X\<close> is a key of the request and to \<open>None\<close> otherwise. A reference whose first
  segment is neither a key of the context nor the id of a recorded step resolves to
  \<open>None\<close>. At a path segment the traversal goes on only from a dictionary that has the
  segment as a key; from any other value, and for an absent key, the result is \<open>None\<close>.
  Resolution is a total function without an error value: no input makes it raise.
\<close>

theorem resolve_reference_spec:
  "(CHR ''.'' \<notin> set X \<longrightarrow>
      resolve_reference (''${request.'' @ X @ ''}'') ctx
        = (case map_of (ctx_request ctx) X of Some v \<Rightarrow> v | None \<Rightarrow> PNone))
   \<and> (split_char CHR ''.'' (reference_path reference) = first # rest
        \<and> first \<noteq> ''request'' \<and> first \<noteq> ''steps'' \<and> \<not> py_in first (ctx_steps ctx)
      \<longrightarrow> resolve_reference reference ctx = PNone)
   \<and> ((\<forall>d. current \<noteq> PDict d) \<longrightarrow> traverse current (part # parts) = PNone)
   \<and> (map_of d part = None \<longrightarrow> traverse (PDict d) (part # parts) = PNone)
   \<and> (map_of d part = Some v \<longrightarrow> traverse (PDict d) (part # parts) = traverse v parts)
   \<and> resolve_reference (''${request.'' @ P @ ''}'') ctx
        = traverse (PDict (ctx_request ctx)) (split_char CHR ''.'' P)"
  using resolve_request_field [of X ctx] resolve_unknown_first [of reference first rest ctx]
    traverse_not_dict [of current part parts] resolve_request_path [of P ctx]
  by simp

theorem resolve_reference_spec_witness:
  "CHR ''.'' \<notin> set ''message''
   \<and> resolve_reference ''${request.message}'' test_context = PStr ''hello world''
   \<and> resolve_reference ''${request.absent}'' test_context = PNone
   \<and> split_char CHR ''.'' (reference_path ''${missing.output.field}'')
        = ''missing'' # [''output'', ''field'']
   \<and> \<not> py_in ''missing'' (ctx_steps test_context)
   \<and> resolve_reference ''${missing.output.field}'' test_context = PNone
   \<and> traverse (PInt 0) [''x''] = PNone
   \<and> map_of [(''count'', PInt 0)] ''x'' = None
   \<and> traverse (PDict [(''count'', PInt 0)]) [''x''] = PNone
   \<and> map_of [(''count'', PInt 0)] ''count'' = Some (PInt 0)
   \<and> traverse (PDict [(''count'', PInt 0)]) [''count'', ''x''] = PNone"
proof -
  have a: "CHR ''.'' \<notin> set ''message''" "CHR ''.'' \<notin> set ''absent''" by simp_all
  have b: "split_char CHR ''.'' (reference_path ''${missing.output.field}'')
             = ''missing'' # [''output'', ''field'']"
    by (simp add: reference_path_def startswith_def endswith_def)
  have c: "\<not> py_in ''missing'' (ctx_steps test_context)"
    by (simp add: py_in_def test_context_def)
  have d: "\<forall>d. PInt 0 \<noteq> PDict d" by simp
  show ?thesis
    using a b c d
      resolve_reference_spec [where X = "''message''" and ctx = test_context
        and reference = "''${missing.output.field}''" and first = "''missing''"
        and rest = "[''output'', ''field'']" and current = "PInt 0" and part = "''x''"
        and parts = "[]" and d = "[(''count'', PInt 0)]" and v = "PInt 0" and P = "''absent''"]
      resolve_reference_spec [where X = "''absent''" and ctx = test_context
        and reference = "''${missing.output.field}''" and first = "''missing''"
        and rest = "[''output'', ''field'']" and current = "PInt 0" and part = "''count''"
        and parts = "[''x'']" and d = "[(''count'', PInt 0)]" and v = "PInt 0" and P = "''absent''"]
    by (simp add: test_context_def)
qed

section \<open>String interpolation and searching\<close>

lemma resolve_string_vars_plain:
  "CHR ''$'' \<notin> set t \<Longrightarrow> resolve_string_vars t ctx = t"
  by (induction t) auto

lemma startswith_append_nonempty:
  "cs \<noteq> [] \<Longrightarrow> startswith (cs @ t) [c] = startswith cs [c]"
  by (cases cs) (auto simp: startswith_def)

lemma dropWhile_append_all:
  "\<forall>x \<in> set t. P x \<Longrightarrow> (dropWhile P (xs @ t) = []) = (dropWhile P xs = [])"
  by (induction xs) (auto simp: dropWhile_eq_Nil_conv)

lemma takeWhile_append_found:
  "dropWhile P xs \<noteq> [] \<Longrightarrow> takeWhile P (xs @ t) = takeWhile P xs"
  by (induction xs) auto

lemma dropWhile_append_found:
  "dropWhile P xs \<noteq> [] \<Longrightarrow> dropWhile P (xs @ t) = dropWhile P xs @ t"
  by (induction xs) auto

lemma resolve_string_vars_append:
  assumes "CHR ''$'' \<notin> set t" and "CHR ''}'' \<notin> set t"
  shows "resolve_string_vars (s @ t) ctx = resolve_string_vars s ctx @ t"
proof (induction s ctx rule: resolve_string_vars.induct)
  case (1 ctx)
  then show ?case using assms(1) by (simp add: resolve_string_vars_plain)
next
  case (2 c cs ctx)
  let ?P = "\<lambda>x. x \<noteq> CHR ''}''"
  have allt: "\<forall>x \<in> set t. ?P x" using assms(2) by auto
  show ?case
  proof (cases "c = CHR ''$'' \<and> startswith cs ''{''
         \<and> takeWhile ?P (tl cs) \<noteq> [] \<and> dropWhile ?P (tl cs) \<noteq> []")
    case True
    then have ne: "cs \<noteq> []" by (auto simp: startswith_def)
    then have tl: "tl (cs @ t) = tl cs @ t" by simp
    from True have tw: "takeWhile ?P (tl cs @ t) = takeWhile ?P (tl cs)"
      by (simp add: takeWhile_append_found)
    from True have dw: "dropWhile ?P (tl cs @ t) = dropWhile ?P (tl cs) @ t"
      by (simp add: dropWhile_append_found)
    from True have sw: "startswith (cs @ t) ''{''"
      using startswith_append_nonempty [OF ne] by simp
    have ih: "resolve_string_vars (tl (dropWhile ?P (tl cs)) @ t) ctx
                = resolve_string_vars (tl (dropWhile ?P (tl cs))) ctx @ t"
      using "2.IH"(1) True by simp
    have "resolve_string_vars (c # (cs @ t)) ctx
            = replace_match (''${'' @ takeWhile ?P (tl cs) @ ''}'') ctx
                @ resolve_string_vars (tl (dropWhile ?P (tl cs)) @ t) ctx"
      using True sw tl tw dw by simp
    also have "\<dots> = resolve_string_vars (c # cs) ctx @ t"
      using True ih by simp
    finally show ?thesis by simp
  next
    case False
    have ih: "resolve_string_vars (cs @ t) ctx = resolve_string_vars cs ctx @ t"
      using "2.IH"(2) False by blast
    have nomatch: "\<not> (c = CHR ''$'' \<and> startswith (cs @ t) ''{''
         \<and> takeWhile ?P (tl (cs @ t)) \<noteq> [] \<and> dropWhile ?P (tl (cs @ t)) \<noteq> [])"
    proof (cases "cs = []")
      case True
      have "\<forall>x \<in> set (tl t). ?P x"
        using allt by (cases t) auto
      then have "dropWhile ?P (tl t) = []"
        by simp
      with True show ?thesis by simp
    next
      case ne: False
      then have tl: "tl (cs @ t) = tl cs @ t" by simp
      show ?thesis
      proof (cases "dropWhile ?P (tl cs) = []")
        case True
        then have "dropWhile ?P (tl cs @ t) = []"
          using dropWhile_append_all [OF allt, of "tl cs"] by simp
        with tl show ?thesis by simp
      next
        case dne: False
        then have "takeWhile ?P (tl cs @ t) = takeWhile ?P (tl cs)"
          by (simp add: takeWhile_append_found)
        with False dne tl startswith_append_nonempty [OF ne, of t "CHR ''{''"]
        show ?thesis by auto
      qed
    qed
    have "resolve_string_vars (c # (cs @ t)) ctx = c # resolve_string_vars (cs @ t) ctx"
      by (simp only: resolve_string_vars.simps nomatch if_False)
    moreover have "resolve_string_vars (c # cs) ctx = c # resolve_string_vars cs ctx"
      by (simp only: resolve_string_vars.simps False if_False)
    ultimately show ?thesis using ih by simp
  qed
qed

lemma startswith_self_append: "startswith (sub @ b) sub"
  by (simp add: startswith_def)

lemma contains_append: "contains sub (a @ sub @ b)"
proof (induction a)
  case Nil
  show ?case
    by (cases "sub @ b") (use startswith_self_append [of sub b] in auto)
next
  case (Cons x a)
  then show ?case by simp
qed

lemma startswith_append_longer:
  assumes "\<not> startswith s sep" and "s \<noteq> []" and "last s \<notin> set sep"
  shows "\<not> startswith (s @ t) sep"
proof
  assume h: "startswith (s @ t) sep"
  show False
  proof (cases "length sep \<le> length s")
    case True
    with h assms(1) show False by (simp add: startswith_def)
  next
    case False
    with h have "s @ take (length sep - length s) t = sep"
      by (simp add: startswith_def)
    then have "set s \<subseteq> set sep" by (metis set_append Un_upper1)
    with assms(2,3) show False using last_in_set by blast
  qed
qed

lemma before_first_suffix:
  assumes "\<not> contains sep X" and "X \<noteq> []" and "last X \<notin> set sep"
    and "\<not> startswith (w @ sep) sep \<or> w = []" and "sep \<noteq> []"
    and "\<forall>i < length w. \<not> startswith (drop i (w @ sep)) sep"
  shows "before_first sep (X @ w @ sep) = X @ w"
  using assms(1-3)
proof (induction X)
  case Nil
  then show ?case by simp
next
  case (Cons c cs)
  have ns: "\<not> startswith ((c # cs) @ w @ sep) sep"
    using Cons.prems by (intro startswith_append_longer) auto
  have base: "before_first sep (w @ sep) = w"
    using assms(6)
  proof (induction w)
    case Nil
    then show ?case using assms(5) by (cases sep) (auto simp: startswith_def)
  next
    case (Cons a w)
    have "\<not> startswith ((a # w) @ sep) sep" using Cons.prems by force
    moreover have "\<forall>i < length w. \<not> startswith (drop i (w @ sep)) sep"
      using Cons.prems by force
    ultimately show ?case using Cons.IH by simp
  qed
  show ?case
  proof (cases "cs = []")
    case True
    with ns base show ?thesis by simp
  next
    case False
    with Cons.prems have "\<not> contains sep cs" "last cs \<notin> set sep" by auto
    with Cons.IH False ns show ?thesis by simp
  qed
qed

lemma before_first_is_empty:
  assumes "\<not> contains ''is empty'' X" and "X \<noteq> []" and "last X = CHR ''}''"
  shows "before_first ''is empty'' (X @ '' is empty'') = X @ '' ''"
proof -
  have "before_first ''is empty'' (X @ '' '' @ ''is empty'') = X @ '' ''"
    by (rule before_first_suffix) (use assms in \<open>auto simp: startswith_def\<close>)
  then show ?thesis by simp
qed

lemma isspace_simps [simp]:
  "isspace CHR '' ''" "\<not> isspace CHR ''$''" "\<not> isspace CHR ''}''"
  by (simp_all add: isspace_def)

lemma strip_reference:
  assumes "hd X = CHR ''$''" and "last X = CHR ''}''" and "X \<noteq> []"
  shows "strip (X @ '' '') = X"
proof -
  have a: "dropWhile isspace (X @ '' '') = X @ '' ''"
    using assms(1,3) by (cases X) auto
  have b: "dropWhile isspace (rev X) = rev X"
    using assms(2,3) by (cases "rev X") (auto simp: last_rev [symmetric] hd_rev)
  show ?thesis by (simp add: strip_def strip_where_def a b)
qed

section \<open>Condition evaluation\<close>

lemma is_empty_value_iff:
  "is_empty_value v =
     (v = PNone \<or> v = PList [] \<or> v = PDict [] \<or> v = PBool False \<or> v = PInt 0 \<or> v = PStr [])"
  by (cases v) (auto simp: is_empty_value_def)

lemma evaluate_is_empty:
  assumes "contains ''is empty'' (resolve_string_vars cond ctx)"
  shows "evaluate_condition log_frames depth cond ctx
           = Inr (is_empty_value
                    (resolve_reference (strip (before_first ''is empty'' cond)) ctx))"
  using assms by (simp add: evaluate_condition_def condition_body_def except_handler_def Let_def)

lemma compare_ops_ne:
  "contains ''!='' r \<Longrightarrow>
   compare_ops [''!='', ''==''] r
     = Some (unquote (before_first ''!='' r) \<noteq> unquote (after_first ''!='' r))"
  by (simp add: Let_def)

lemma compare_ops_eq:
  "\<not> contains ''!='' r \<Longrightarrow> contains ''=='' r \<Longrightarrow>
   compare_ops [''!='', ''==''] r
     = Some (unquote (before_first ''=='' r) = unquote (after_first ''=='' r))"
  by (simp add: Let_def)

lemma evaluate_comparison:
  assumes "\<not> contains ''is empty'' (resolve_string_vars cond ctx)"
    and "\<not> contains ''is not empty'' (resolve_string_vars cond ctx)"
    and "compare_ops [''!='', ''==''] (resolve_string_vars cond ctx) = Some b"
  shows "evaluate_condition log_frames depth cond ctx = Inr b"
  using assms by (simp add: evaluate_condition_def condition_body_def except_handler_def Let_def)

lemma split_first:
  "contains op r \<Longrightarrow> r = before_first op r @ op @ after_first op r"
proof (induction r)
  case Nil
  then show ?case by simp
next
  case (Cons c cs)
  show ?case
  proof (cases "startswith (c # cs) op")
    case True
    then have "take (length op) (c # cs) = op" by (simp add: startswith_def)
    then have "op @ drop (length op) (c # cs) = c # cs"
      by (metis append_take_drop_id)
    with True show ?thesis by simp
  next
    case False
    with Cons show ?thesis by simp
  qed
qed

text \<open>
  C2, as stated: the condition is false for the number 0. The code tests a value that is
  neither a list nor a dictionary by its truthiness, so the number 0 counts as empty.
\<close>

theorem is_empty_zero_counterexample:
  "resolve_reference ''${request.count}'' test_context = PInt 0
   \<and> evaluate_condition 0 0 ''${request.count} is empty'' test_context = Inr True"
  by code_simp

text \<open>
  C2, amended. For a reference \<open>X\<close> that does not itself contain the phrase, the condition
  \<open>X is empty\<close> is true iff the resolved value of \<open>X\<close> is \<open>None\<close>, an empty list, an empty
  dictionary or a falsy scalar (\<open>False\<close>, the number 0, the empty string); it is false
  for every other scalar and for every non-empty container.
\<close>

theorem is_empty_condition:
  assumes "\<not> contains ''is empty'' (''${'' @ p @ ''}'')"
  shows "evaluate_condition log_frames depth (''${'' @ p @ ''}'' @ '' is empty'') ctx
           = Inr (resolve_reference (''${'' @ p @ ''}'') ctx
                    \<in> {PNone, PList [], PDict [], PBool False, PInt 0, PStr []})"
proof -
  let ?X = "''${'' @ p @ ''}''"
  have ne: "?X \<noteq> []" and hd: "hd ?X = CHR ''$''" and last: "last ?X = CHR ''}''"
    by simp_all
  have "resolve_string_vars (?X @ '' is empty'') ctx
          = resolve_string_vars ?X ctx @ '' is empty''"
    by (rule resolve_string_vars_append) simp_all
  also have "\<dots> = (resolve_string_vars ?X ctx @ '' '') @ ''is empty'' @ []"
    by simp
  finally have "contains ''is empty'' (resolve_string_vars (?X @ '' is empty'') ctx)"
    using contains_append [of "''is empty''" "resolve_string_vars ?X ctx @ '' ''" "[]"]
    by simp
  then have "evaluate_condition log_frames depth (?X @ '' is empty'') ctx
      = Inr (is_empty_value
          (resolve_reference (strip (before_first ''is empty'' (?X @ '' is empty''))) ctx))"
    by (rule evaluate_is_empty)
  also have "before_first ''is empty'' (?X @ '' is empty'') = ?X @ '' ''"
    using assms ne last by (rule before_first_is_empty)
  also have "strip (?X @ '' '') = ?X"
    using hd last ne by (rule strip_reference)
  finally show ?thesis
    by (simp add: is_empty_value_iff)
qed

theorem is_empty_condition_witness:
  "\<not> contains ''is empty'' (''${'' @ ''request.count'' @ ''}'')
   \<and> evaluate_condition 0 3 (''${'' @ ''request.count'' @ ''}'' @ '' is empty'') test_context
       = Inr True
   \<and> resolve_reference (''${'' @ ''request.count'' @ ''}'') test_context = PInt 0
   \<and> evaluate_condition 0 3 (''${'' @ ''request.message'' @ ''}'' @ '' is empty'') test_context
       = Inr False"
proof -
  have a: "\<not> contains ''is empty'' (''${'' @ ''request.count'' @ ''}'')"
    by (simp add: startswith_def)
  have b: "\<not> contains ''is empty'' (''${'' @ ''request.message'' @ ''}'')"
    by (simp add: startswith_def)
  have c: "resolve_reference (''${'' @ ''request.count'' @ ''}'') test_context = PInt 0"
    by code_simp
  have d: "resolve_reference (''${'' @ ''request.message'' @ ''}'') test_context
             = PStr ''hello world''"
    by code_simp
  show ?thesis
    using a c d is_empty_condition [OF a, of 0 3 test_context]
      is_empty_condition [OF b, of 0 3 test_context]
    by simp
qed

text \<open>
  C8, as stated: a condition that contains \<open>==\<close> and no empty-check phrase is true iff
  the two sides of \<open>==\<close> are equal. The loop tries \<open>!=\<close> first, so a condition that
  contains both operators is split at \<open>!=\<close>: \<open>x == y!=z\<close> is true, although the sides
  \<open>x\<close> and \<open>y!=z\<close> of \<open>==\<close> differ.
\<close>

theorem equality_condition_counterexample:
  "contains ''=='' ''x == y!=z''
   \<and> \<not> contains ''is empty'' ''x == y!=z'' \<and> \<not> contains ''is not empty'' ''x == y!=z''
   \<and> resolve_string_vars ''x == y!=z'' test_context = ''x == y!=z''
   \<and> unquote (before_first ''=='' ''x == y!=z'') = ''x''
   \<and> unquote (after_first ''=='' ''x == y!=z'') = ''y!=z''
   \<and> evaluate_condition 0 0 ''x == y!=z'' test_context = Inr True"
  by code_simp

text \<open>
  C8, amended. Let \<open>r\<close> be the interpolated condition string, without an empty-check
  phrase. If \<open>r\<close> contains \<open>!=\<close>, the condition is true iff the two sides of the first
  \<open>!=\<close>, trimmed of whitespace and surrounding quote characters, differ as strings. If
  \<open>r\<close> contains \<open>==\<close> and no \<open>!=\<close>, the condition is true iff the two sides of the first
  \<open>==\<close>, trimmed the same way, are equal. So for the same trimmed sides the \<open>!=\<close> form
  is the negation of the \<open>==\<close> form.
\<close>

theorem comparison_condition:
  assumes "r = resolve_string_vars cond ctx"
    and "\<not> contains ''is empty'' r" and "\<not> contains ''is not empty'' r"
  shows "(contains ''!='' r \<longrightarrow>
            evaluate_condition log_frames depth cond ctx
              = Inr (unquote (before_first ''!='' r) \<noteq> unquote (after_first ''!='' r))
            \<and> r = before_first ''!='' r @ ''!='' @ after_first ''!='' r)
       \<and> (\<not> contains ''!='' r \<and> contains ''=='' r \<longrightarrow>
            evaluate_condition log_frames depth cond ctx
              = Inr (unquote (before_first ''=='' r) = unquote (after_first ''=='' r))
            \<and> r = before_first ''=='' r @ ''=='' @ after_first ''=='' r)
       \<and> (contains ''!='' r
            \<and> r' = resolve_string_vars cond' ctx'
            \<and> \<not> contains ''is empty'' r' \<and> \<not> contains ''is not empty'' r'
            \<and> \<not> contains ''!='' r' \<and> contains ''=='' r'
            \<and> unquote (before_first ''=='' r') = unquote (before_first ''!='' r)
            \<and> unquote (after_first ''=='' r') = unquote (after_first ''!='' r) \<longrightarrow>
            (\<exists>b. evaluate_condition log_frames depth cond ctx = Inr b
                 \<and> evaluate_condition log_frames' depth' cond' ctx' = Inr (\<not> b)))"
proof -
  have ev: "\<And>b. compare_ops [''!='', ''==''] r = Some b \<Longrightarrow>
      evaluate_condition log_frames depth cond ctx = Inr b"
    using assms(2,3) unfolding assms(1) by (rule evaluate_comparison)
  have ev': "\<And>b. r' = resolve_string_vars cond' ctx' \<Longrightarrow> \<not> contains ''is empty'' r' \<Longrightarrow>
      \<not> contains ''is not empty'' r' \<Longrightarrow> compare_ops [''!='', ''==''] r' = Some b \<Longrightarrow>
      evaluate_condition log_frames' depth' cond' ctx' = Inr b"
    using evaluate_comparison by blast
  show ?thesis
proof (intro conjI impI)
  assume ne: "contains ''!='' r"
  show "evaluate_condition log_frames depth cond ctx
          = Inr (unquote (before_first ''!='' r) \<noteq> unquote (after_first ''!='' r))"
    using ev [OF compare_ops_ne [OF ne]] .
  show "r = before_first ''!='' r @ ''!='' @ after_first ''!='' r"
    using ne by (rule split_first)
next
  assume h: "\<not> contains ''!='' r \<and> contains ''=='' r"
  show "evaluate_condition log_frames depth cond ctx
          = Inr (unquote (before_first ''=='' r) = unquote (after_first ''=='' r))"
    using ev [OF compare_ops_eq [of r]] h by blast
  show "r = before_first ''=='' r @ ''=='' @ after_first ''=='' r"
    using h by (intro split_first) simp
next
  assume h: "contains ''!='' r
            \<and> r' = resolve_string_vars cond' ctx'
            \<and> \<not> contains ''is empty'' r' \<and> \<not> contains ''is not empty'' r'
            \<and> \<not> contains ''!='' r' \<and> contains ''=='' r'
            \<and> unquote (before_first ''=='' r') = unquote (before_first ''!='' r)
            \<and> unquote (after_first ''=='' r') = unquote (after_first ''!='' r)"
  have a: "evaluate_condition log_frames depth cond ctx
          = Inr (unquote (before_first ''!='' r) \<noteq> unquote (after_first ''!='' r))"
    using ev [OF compare_ops_ne [of r]] h by blast
  have b: "evaluate_condition log_frames' depth' cond' ctx'
          = Inr (unquote (before_first ''=='' r') = unquote (after_first ''=='' r'))"
    using ev' [OF _ _ _ compare_ops_eq [of r']] h by blast
  show "\<exists>b. evaluate_condition log_frames depth cond ctx = Inr b
            \<and> evaluate_condition log_frames' depth' cond' ctx' = Inr (\<not> b)"
  proof -
    from h have e1: "unquote (before_first ''=='' r') = unquote (before_first ''!='' r)"
      and e2: "unquote (after_first ''=='' r') = unquote (after_first ''!='' r)"
      by blast+
    show ?thesis by (simp only: a b e1 e2) simp
  qed
qed
qed

theorem comparison_condition_witness:
  "\<not> contains ''is empty'' (resolve_string_vars cond_ne_ok test_context)
   \<and> \<not> contains ''is not empty'' (resolve_string_vars cond_ne_ok test_context)
   \<and> contains ''!='' (resolve_string_vars cond_ne_ok test_context)
   \<and> \<not> contains ''is empty'' (resolve_string_vars cond_eq_ok test_context)
   \<and> \<not> contains ''is not empty'' (resolve_string_vars cond_eq_ok test_context)
   \<and> \<not> contains ''!='' (resolve_string_vars cond_eq_ok test_context)
   \<and> contains ''=='' (resolve_string_vars cond_eq_ok test_context)
   \<and> evaluate_condition 0 0 cond_eq_ok test_context = Inr True
   \<and> evaluate_condition 0 0 cond_ne_ok test_context = Inr False"
proof -
  let ?rn = "resolve_string_vars cond_ne_ok test_context"
  let ?re = "resolve_string_vars cond_eq_ok test_context"
  have n1: "\<not> contains ''is empty'' ?rn" and n2: "\<not> contains ''is not empty'' ?rn"
    and n3: "contains ''!='' ?rn"
    by code_simp+
  have e1: "\<not> contains ''is empty'' ?re" and e2: "\<not> contains ''is not empty'' ?re"
    and e3: "\<not> contains ''!='' ?re" and e4: "contains ''=='' ?re"
    by code_simp+
  have un: "unquote (before_first ''!='' ?rn) = unquote (after_first ''!='' ?rn)"
    by code_simp
  have ue: "unquote (before_first ''=='' ?re) = unquote (after_first ''=='' ?re)"
    by code_simp
  have "evaluate_condition 0 0 cond_ne_ok test_context
          = Inr (unquote (before_first ''!='' ?rn) \<noteq> unquote (after_first ''!='' ?rn))"
    using comparison_condition [OF refl n1 n2, of 0 0] n3 by blast
  moreover have "evaluate_condition 0 0 cond_eq_ok test_context
          = Inr (unquote (before_first ''=='' ?re) = unquote (after_first ''=='' ?re))"
    using comparison_condition [OF refl e1 e2, of 0 0] e3 e4 by blast
  ultimately show ?thesis
    using n1 n2 n3 e1 e2 e3 e4 un ue by simp
qed

section \<open>Exceptions in condition evaluation\<close>

lemma run_step_skipped:
  assumes "condition step = Some cond" and "cond \<noteq> []"
    and "evaluate_condition log_frames depth cond
           \<lparr>ctx_request = request, ctx_steps = st_steps st\<rparr> = Inr False"
  shows "run_step impl log_frames depth reg mock request step st
           = Inr (record_step (step_id step) (skip_result step) [] ''skipped'' st)"
  using assms by (simp add: run_step_def condition_not_met_def truthy_str_def)

lemma run_step_condition_raises:
  assumes "condition step = Some cond" and "cond \<noteq> []"
    and "evaluate_condition log_frames depth cond
           \<lparr>ctx_request = request, ctx_steps = st_steps st\<rparr> = Inl e"
  shows "run_step impl log_frames depth reg mock request step st = Inl e"
  using assms by (simp add: run_step_def condition_not_met_def truthy_str_def)

lemma handled_exception:
  assumes "condition_body (\<lambda>inner. nested_call log_frames depth inner ctx) cond ctx = Inl e"
    and "log_frames < depth"
  shows "evaluate_condition_log log_frames depth cond ctx = Inr (False, [(cond, e)])"
  using assms by (simp add: except_handler_def logger_warning_def)

lemma unhandled_exception:
  assumes "condition_body (\<lambda>inner. nested_call log_frames depth inner ctx) cond ctx = Inl e"
    and "depth \<le> log_frames"
  shows "evaluate_condition_log log_frames depth cond ctx = Inl RecursionError"
  using assms by (simp add: except_handler_def logger_warning_def)

lemma record_step_lookup:
  "map_of (st_step_results (record_step sid r out txt st)) sid = Some r
   \<and> map_of (st_steps (record_step sid r out txt st)) sid = Some (context_entry out txt)"
  by (simp add: record_step_def update_conv')

lemma self_reference_body:
  "condition_body recurse ''not ${request.x}'' loop_context
     = (case recurse ''not ${request.x}'' of
          Inl e \<Rightarrow> Inl e
        | Inr r \<Rightarrow> Inr (\<not> fst r, snd r))"
proof -
  have r: "resolve_string_vars ''not ${request.x}'' loop_context = ''not not ${request.x}''"
    by code_simp
  have c1: "contains ''is empty'' ''not not ${request.x}'' = False"
    and c2: "contains ''is not empty'' ''not not ${request.x}'' = False"
    and c3: "compare_ops [''!='', ''==''] ''not not ${request.x}'' = None"
    and c4: "startswith (strip ''not not ${request.x}'') ''not '' = True"
    and c5: "drop 4 (strip ''not not ${request.x}'') = ''not ${request.x}''"
    by code_simp+
  show ?thesis
    by (simp only: condition_body_def Let_def r c1 c2 c3 c4 c5 if_False if_True option.case)
qed

lemma self_reference_step:
  "evaluate_condition_log log_frames (Suc depth) ''not ${request.x}'' loop_context
     = except_handler log_frames (Suc depth) ''not ${request.x}''
         (case evaluate_condition_log log_frames depth ''not ${request.x}'' loop_context of
            Inl e \<Rightarrow> Inl e
          | Inr r \<Rightarrow> Inr (\<not> fst r, snd r))"
  by (simp only: evaluate_condition_log.simps [of log_frames "Suc depth"] self_reference_body
        nested_call.simps)

lemma loop_flow_run:
  "execute_flow impl_echo log_frames depth None loop_registry [] [] ''loop_flow'' loop_request None
     = (case run_step impl_echo log_frames depth loop_registry False loop_request loop_step
               empty_state of
          Inl e \<Rightarrow> Inl e
        | Inr st \<Rightarrow>
            Inr (\<lparr>fr_flow_id = ''loop_flow'', fr_status = SUCCESS, fr_response = [],
                  fr_step_results = st_step_results st, fr_display = Some [],
                  fr_error = None\<rparr>, st_cache st, st_log st))"
proof -
  have m: "resolve_mock_mode None None = False"
    by code_simp
  have f: "get_flow loop_registry ''loop_flow'' = Some loop_flow"
    by (simp add: get_flow_def loop_registry_def)
  show ?thesis
    unfolding execute_flow_def Let_def m f option.case
    by (simp add: loop_flow_def empty_state_def build_response_def split: sum.splits)
qed

lemma loop_step_executed:
  assumes met: "condition_not_met log_frames depth loop_step
      \<lparr>ctx_request = loop_request, ctx_steps = st_steps empty_state\<rparr> = Inr False"
  shows "run_step impl_echo log_frames depth loop_registry False loop_request loop_step
           empty_state
     = Inr (record_step ''step1''
          \<lparr>result_skill_id = ''test_skill'', result_step_id = ''step1'',
            result_status = SUCCESS, result_output = [], result_error = None,
            result_metadata = []\<rparr> [] ''success''
          (empty_state
             \<lparr>st_cache := [(''test_skill'',
                  \<lparr>executor_class_of = FunctionExecutor, manifest = plain_manifest\<rparr>)],
              st_log := [(Real, ''test_skill'', [])]\<rparr>))"
proof -
  have sk: "get_skill loop_registry (step_skill loop_step) = Some plain_manifest"
    by (simp add: get_skill_def loop_registry_def loop_step_def)
  have inp: "resolve_step_inputs loop_step
      \<lparr>ctx_request = loop_request, ctx_steps = st_steps empty_state\<rparr> = []"
    by code_simp
  have e: "st_cache empty_state = []" "st_log empty_state = []" "step_id loop_step = ''step1''"
    by (simp_all add: empty_state_def loop_step_def)
  have ex: "get_executor [] plain_manifest
      = Inr (\<lparr>executor_class_of = FunctionExecutor, manifest = plain_manifest\<rparr>,
             [(''test_skill'',
               \<lparr>executor_class_of = FunctionExecutor, manifest = plain_manifest\<rparr>)])"
    by code_simp
  have run: "execute impl_echo plain_manifest [] ''step1'' False []
      = (\<lparr>result_skill_id = ''test_skill'', result_step_id = ''step1'',
           result_status = SUCCESS, result_output = [], result_error = None,
           result_metadata = []\<rparr>,
         [(Real, ''test_skill'', [])])"
    by code_simp
  have hp: "handle_passthrough plain_manifest []
       \<lparr>result_skill_id = ''test_skill'', result_step_id = ''step1'',
         result_status = SUCCESS, result_output = [], result_error = None,
         result_metadata = []\<rparr>
     = Inr \<lparr>result_skill_id = ''test_skill'', result_step_id = ''step1'',
             result_status = SUCCESS, result_output = [], result_error = None,
             result_metadata = []\<rparr>"
    by (simp add: handle_passthrough_def)
  have sv: "status_value SUCCESS = ''success''"
    by code_simp
  show ?thesis
    unfolding run_step_def Let_def met sk inp sum.case option.case bool.case e ex prod.case
      executor.simps run hp skill_result.simps sv
    by (rule refl)
qed

text \<open>
  C6: the handler of \<open>_evaluate_condition\<close> does not make every exception a false
  condition. The request field \<open>x\<close> holds the text \<open>not ${request.x}\<close> and the step has the
  condition \<open>not ${request.x}\<close>, so every activation interpolates the condition to
  \<open>not not ${request.x}\<close> and evaluates the same condition again, until the call raises
  \<open>RecursionError\<close>. The handlers of the deepest activations raise again when they log,
  the first activation with room for the logger logs one warning and returns \<open>False\<close>,
  and each of the activations around it negates the result. So, for every number
  \<open>log_frames\<close> of activations that the logger needs and every \<open>k\<close>: with \<open>log_frames + 2 + 2 * k\<close>
  activations left the condition is true after an exception, and the flow runs the step
  (it is recorded with status Success, not Skipped); with \<open>log_frames + 1 + 2 * k\<close> left the
  condition is false and the step is recorded as Skipped; with at most \<open>log_frames\<close> left the
  \<open>RecursionError\<close> leaves \<open>_evaluate_condition\<close> and \<open>execute_flow\<close>, which returns no
  result.
\<close>

theorem condition_recursion_error:
  "evaluate_condition_log log_frames depth ''not ${request.x}'' loop_context
     = (if depth \<le> log_frames then Inl RecursionError
        else Inr (odd (depth - Suc log_frames), [(''not ${request.x}'', RecursionError)]))
   \<and> (\<exists>fr cache log.
         execute_flow impl_echo log_frames (log_frames + 2 + 2 * k) None loop_registry [] []
             ''loop_flow'' loop_request None = Inr (fr, cache, log)
         \<and> map (\<lambda>(sid, r). (sid, result_status r)) (fr_step_results fr)
             = [(''step1'', SUCCESS)]
         \<and> log = [(Real, ''test_skill'', [])])
   \<and> (\<exists>fr cache log.
         execute_flow impl_echo log_frames (log_frames + 1 + 2 * k) None loop_registry [] []
             ''loop_flow'' loop_request None = Inr (fr, cache, log)
         \<and> map (\<lambda>(sid, r). (sid, result_status r)) (fr_step_results fr)
             = [(''step1'', SKIPPED)]
         \<and> log = [])
   \<and> execute_flow impl_echo (depth + k) depth None loop_registry [] []
         ''loop_flow'' loop_request None = Inl RecursionError"
proof -
  let ?c = "''not ${request.x}''"
  have parity: "evaluate_condition_log lf d ?c loop_context
      = (if d \<le> lf then Inl RecursionError
         else Inr (odd (d - Suc lf), [(?c, RecursionError)]))" for lf d
  proof (induction d)
    case 0
    show ?case
      by (simp only: evaluate_condition_log.simps self_reference_body nested_call.simps)
         (simp add: except_handler_def logger_warning_def)
  next
    case (Suc d)
    consider "d < lf" | "d = lf" | "lf < d"
      by (rule linorder_cases)
    then show ?case
    proof cases
      case 1
      then show ?thesis
        unfolding self_reference_step Suc.IH
        by (simp add: except_handler_def logger_warning_def)
    next
      case 2
      then show ?thesis
        unfolding self_reference_step Suc.IH
        by (simp add: except_handler_def logger_warning_def)
    next
      case 3
      then show ?thesis
        unfolding self_reference_step Suc.IH
        by (simp add: except_handler_def logger_warning_def Suc_diff_le)
    qed
  qed
  have ctx: "\<lparr>ctx_request = loop_request, ctx_steps = st_steps empty_state\<rparr> = loop_context"
    by (simp add: loop_context_def empty_state_def)
  have cond: "condition loop_step = Some ?c" and ne: "?c \<noteq> []"
    by (simp_all add: loop_step_def)
  have ev: "evaluate_condition lf d ?c \<lparr>ctx_request = loop_request, ctx_steps = st_steps empty_state\<rparr>
      = (if d \<le> lf then Inl RecursionError else Inr (odd (d - Suc lf)))" for lf d
    unfolding ctx evaluate_condition_def parity by simp
  have raises: "run_step impl_echo (depth + k) depth loop_registry False loop_request loop_step
      empty_state = Inl RecursionError"
    using cond ne by (rule run_step_condition_raises) (simp add: ev)
  have skipped: "run_step impl_echo log_frames (log_frames + 1 + 2 * k) loop_registry False
      loop_request loop_step empty_state
      = Inr (record_step (step_id loop_step) (skip_result loop_step) [] ''skipped'' empty_state)"
    using cond ne by (rule run_step_skipped) (simp add: ev)
  have "condition_not_met log_frames (log_frames + 2 + 2 * k) loop_step
      \<lparr>ctx_request = loop_request, ctx_steps = st_steps empty_state\<rparr> = Inr False"
    unfolding condition_not_met_def cond by (simp add: truthy_str_def ev)
  then have executed: "run_step impl_echo log_frames (log_frames + 2 + 2 * k) loop_registry False
      loop_request loop_step empty_state
      = Inr (record_step ''step1''
          \<lparr>result_skill_id = ''test_skill'', result_step_id = ''step1'',
            result_status = SUCCESS, result_output = [], result_error = None,
            result_metadata = []\<rparr> [] ''success''
          (empty_state
             \<lparr>st_cache := [(''test_skill'',
                  \<lparr>executor_class_of = FunctionExecutor, manifest = plain_manifest\<rparr>)],
              st_log := [(Real, ''test_skill'', [])]\<rparr>))"
    by (rule loop_step_executed)
  show ?thesis
  proof (intro conjI)
    show "evaluate_condition_log log_frames depth ?c loop_context
      = (if depth \<le> log_frames then Inl RecursionError
         else Inr (odd (depth - Suc log_frames), [(?c, RecursionError)]))"
      by (rule parity)
  next
    show "\<exists>fr cache log.
         execute_flow impl_echo log_frames (log_frames + 2 + 2 * k) None loop_registry [] []
             ''loop_flow'' loop_request None = Inr (fr, cache, log)
         \<and> map (\<lambda>(sid, r). (sid, result_status r)) (fr_step_results fr)
             = [(''step1'', SUCCESS)]
         \<and> log = [(Real, ''test_skill'', [])]"
      unfolding loop_flow_run executed sum.case
      by (simp add: record_step_def empty_state_def)
  next
    show "\<exists>fr cache log.
         execute_flow impl_echo log_frames (log_frames + 1 + 2 * k) None loop_registry [] []
             ''loop_flow'' loop_request None = Inr (fr, cache, log)
         \<and> map (\<lambda>(sid, r). (sid, result_status r)) (fr_step_results fr)
             = [(''step1'', SKIPPED)]
         \<and> log = []"
      unfolding loop_flow_run skipped sum.case
      by (simp add: record_step_def skip_result_def empty_state_def loop_step_def)
  next
    show "execute_flow impl_echo (depth + k) depth None loop_registry [] []
         ''loop_flow'' loop_request None = Inl RecursionError"
      unfolding loop_flow_run raises sum.case by (rule refl)
  qed
qed

section \<open>Passthrough fallback\<close>

lemma handle_fallback_passthrough:
  assumes "strategy (fallback m) = PASSTHROUGH"
    and "passthrough_field (fallback m) = Some F" and "F \<noteq> []"
  shows "result_status (handle_fallback m sid e) = FAILURE
       \<and> result_output (handle_fallback m sid e) = passthrough_marker F"
  using assms by (simp add: handle_fallback_def Let_def truthy_str_def passthrough_marker_def)

lemma execute_passthrough:
  assumes "invocation_fails impl m inputs mock log"
    and "strategy (fallback m) = PASSTHROUGH"
    and "passthrough_field (fallback m) = Some F" and "F \<noteq> []"
  shows "result_status (fst (execute impl m inputs sid mock log)) = FAILURE
       \<and> result_output (fst (execute impl m inputs sid mock log)) = passthrough_marker F"
proof -
  from execute_failure_is_fallback [OF assms(1)] obtain e where
    "fst (execute impl m inputs sid mock log) = handle_fallback m sid e" by blast
  then show ?thesis using handle_fallback_passthrough [OF assms(2-4)] by simp
qed

lemma handle_passthrough_marker:
  assumes "result_status r = FAILURE" and "result_output r = passthrough_marker F"
  shows "handle_passthrough skill inputs r
           = (if py_in F inputs
              then Inr (r\<lparr>result_output := [(first_output_field skill, py_get inputs F)]\<rparr>)
              else Inr r)"
  using assms by (simp add: handle_passthrough_def passthrough_marker_def py_get_def)

lemma run_step_invoked:
  assumes "condition_not_met log_frames depth step
             \<lparr>ctx_request = request, ctx_steps = st_steps st\<rparr> = Inr False"
    and "get_skill reg (step_skill step) = Some skill"
    and "get_executor (st_cache st) skill = Inr (ex, cache')"
    and "inputs = resolve_step_inputs step \<lparr>ctx_request = request, ctx_steps = st_steps st\<rparr>"
    and "handle_passthrough skill inputs
           (fst (execute impl (manifest ex) inputs (step_id step) mock (st_log st))) = Inr r"
  shows "run_step impl log_frames depth reg mock request step st
           = Inr (record_step (step_id step) r (result_output r) (status_value (result_status r))
                   (st\<lparr>st_cache := cache',
                       st_log := snd (execute impl (manifest ex) inputs (step_id step) mock
                                        (st_log st))\<rparr>))"
  using assms by (auto simp: run_step_def Let_def split: prod.splits)


lemma run_step_other:
  assumes "run_step impl log_frames depth reg mock request step st = Inr st'" and "step_id step \<noteq> k"
  shows "map_of (st_step_results st') k = map_of (st_step_results st) k
       \<and> map_of (st_steps st') k = map_of (st_steps st) k"
  using assms
  by (auto simp: run_step_def Let_def record_step_def update_conv'
           split: if_splits option.splits sum.splits prod.splits bool.splits)

lemma run_steps_other:
  assumes "run_steps impl log_frames depth reg mock request rest st = Inr stf"
    and "k \<notin> set (map step_id rest)"
  shows "map_of (st_step_results stf) k = map_of (st_step_results st) k
       \<and> map_of (st_steps stf) k = map_of (st_steps st) k"
  using assms
proof (induction rest arbitrary: st)
  case Nil
  then show ?case by simp
next
  case (Cons step rest)
  from Cons.prems(1) obtain st' where
    a: "run_step impl log_frames depth reg mock request step st = Inr st'"
    and b: "run_steps impl log_frames depth reg mock request rest st' = Inr stf"
    by (auto split: sum.splits)
  from Cons.prems(2) have c: "step_id step \<noteq> k" and d: "k \<notin> set (map step_id rest)"
    by auto
  from Cons.IH [OF b d] run_step_other [OF a c] show ?case by simp
qed

lemma run_steps_append:
  "run_steps impl log_frames depth reg mock request (pre @ post) st
     = (case run_steps impl log_frames depth reg mock request pre st of
          Inl e \<Rightarrow> Inl e
        | Inr st' \<Rightarrow> run_steps impl log_frames depth reg mock request post st')"
  by (induction pre arbitrary: st) (auto split: sum.splits)

lemma observe_marker_field:
  assumes "map_of (ctx_steps ctx) sid = Some (context_entry (passthrough_marker F) txt)"
    and "CHR ''.'' \<notin> set sid" and "sid \<noteq> ''request''" and "sid \<noteq> ''steps''"
  shows "resolve_reference (''${'' @ sid @ ''.output._field}'') ctx = PStr F"
proof -
  have s: "split_char CHR ''.'' ''output._field'' = [''output'', ''_field'']"
    by simp
  have "resolve_reference (''${'' @ sid @ ''.'' @ ''output._field'' @ ''}'') ctx
          = traverse (context_entry (passthrough_marker F) txt)
              (split_char CHR ''.'' ''output._field'')"
    using assms(2,3,4,1) by (rule resolve_step_path)
  then show ?thesis
    unfolding s by (simp add: context_entry_def passthrough_marker_def)
qed

text \<open>
  C4. A step runs (its condition does not skip it), its skill is registered, and the
  invocation fails on an executor whose manifest configures Passthrough with a field
  \<open>F\<close> (a non-empty name). If \<open>F\<close> is a key of the resolved inputs, the step is recorded,
  in the step results and in the context, with status Failure and with the output
  \<open>{first declared output field: resolved_inputs[F]}\<close>, where the key is \<open>result\<close> for a
  manifest without output fields.
\<close>

theorem passthrough_substitution:
  assumes "condition_not_met log_frames depth step
             \<lparr>ctx_request = request, ctx_steps = st_steps st\<rparr> = Inr False"
    and "get_skill reg (step_skill step) = Some skill"
    and "get_executor (st_cache st) skill = Inr (ex, cache')"
    and "inputs = resolve_step_inputs step \<lparr>ctx_request = request, ctx_steps = st_steps st\<rparr>"
    and "invocation_fails impl (manifest ex) inputs mock (st_log st)"
    and "strategy (fallback (manifest ex)) = PASSTHROUGH"
    and "passthrough_field (fallback (manifest ex)) = Some F" and "F \<noteq> []"
    and "py_in F inputs"
  shows "\<exists>st' r. run_step impl log_frames depth reg mock request step st = Inr st'
       \<and> map_of (st_step_results st') (step_id step) = Some r
       \<and> result_status r = FAILURE
       \<and> result_output r = [(first_output_field skill, py_get inputs F)]
       \<and> map_of (st_steps st') (step_id step)
           = Some (context_entry [(first_output_field skill, py_get inputs F)] ''failure'')
       \<and> first_output_field skill
           = (case output_schema skill of [] \<Rightarrow> ''result'' | f # fs \<Rightarrow> name f)"
proof -
  let ?res = "fst (execute impl (manifest ex) inputs (step_id step) mock (st_log st))"
  let ?new = "?res\<lparr>result_output := [(first_output_field skill, py_get inputs F)]\<rparr>"
  have m: "result_status ?res = FAILURE" "result_output ?res = passthrough_marker F"
    using execute_passthrough [OF assms(5-8), of "step_id step"] by simp_all
  have "handle_passthrough skill inputs ?res = Inr ?new"
    using handle_passthrough_marker [OF m, of skill inputs] assms(9) by simp
  from run_step_invoked [OF assms(1-4) this]
  obtain st0 where
    "run_step impl log_frames depth reg mock request step st
       = Inr (record_step (step_id step) ?new (result_output ?new)
                (status_value (result_status ?new)) st0)"
    by blast
  moreover have "result_status ?new = FAILURE"
    and "result_output ?new = [(first_output_field skill, py_get inputs F)]"
    using m by simp_all
  ultimately show ?thesis
    using record_step_lookup by (simp add: first_output_field_def)
qed

text \<open>
  C10. Under the same conditions, if \<open>F\<close> is not a key of the resolved inputs, the step is
  recorded with the marker \<open>{"_fallback": "passthrough", "_field": F}\<close> as its output, in
  the step results and in the context. Later steps with other ids leave both entries as
  they are, so the marker is in the step results of the flow result, and a reference to
  \<open>${step_id.output._field}\<close> resolves to \<open>F\<close>, after the step and at the end of the flow.
\<close>

theorem passthrough_marker_recorded:
  assumes "condition_not_met log_frames depth step
             \<lparr>ctx_request = request, ctx_steps = st_steps st\<rparr> = Inr False"
    and "get_skill reg (step_skill step) = Some skill"
    and "get_executor (st_cache st) skill = Inr (ex, cache')"
    and "inputs = resolve_step_inputs step \<lparr>ctx_request = request, ctx_steps = st_steps st\<rparr>"
    and "invocation_fails impl (manifest ex) inputs mock (st_log st)"
    and "strategy (fallback (manifest ex)) = PASSTHROUGH"
    and "passthrough_field (fallback (manifest ex)) = Some F" and "F \<noteq> []"
    and "\<not> py_in F inputs"
  shows "\<exists>st' r. run_step impl log_frames depth reg mock request step st = Inr st'
       \<and> map_of (st_step_results st') (step_id step) = Some r
       \<and> result_status r = FAILURE
       \<and> result_output r = passthrough_marker F
       \<and> map_of (st_steps st') (step_id step)
           = Some (context_entry (passthrough_marker F) ''failure'')
       \<and> (\<forall>rest stf.
             run_steps impl log_frames depth reg mock request rest st' = Inr stf
             \<and> step_id step \<notin> set (map step_id rest) \<longrightarrow>
               map_of (st_step_results stf) (step_id step) = Some r
               \<and> map_of (st_steps stf) (step_id step)
                   = Some (context_entry (passthrough_marker F) ''failure'')
               \<and> (CHR ''.'' \<notin> set (step_id step) \<and> step_id step \<noteq> ''request''
                    \<and> step_id step \<noteq> ''steps'' \<longrightarrow>
                    resolve_reference (''${'' @ step_id step @ ''.output._field}'')
                      \<lparr>ctx_request = request, ctx_steps = st_steps stf\<rparr> = PStr F))
       \<and> (\<forall>fid flow pre rest env cache log mock_mode res cache'' log''.
             get_flow reg fid = Some flow \<and> flow_steps flow = pre @ step # rest
             \<and> resolve_mock_mode mock_mode env = mock
             \<and> run_steps impl log_frames depth reg mock request pre
                   \<lparr>st_steps = [], st_step_results = [], st_cache = cache, st_log = log\<rparr>
                 = Inr st
             \<and> step_id step \<notin> set (map step_id rest)
             \<and> execute_flow impl log_frames depth env reg cache log fid request mock_mode
                 = Inr (res, cache'', log'') \<longrightarrow>
               map_of (fr_step_results res) (step_id step) = Some r)"
proof -
  let ?r = "fst (execute impl (manifest ex) inputs (step_id step) mock (st_log st))"
  have m: "result_status ?r = FAILURE" "result_output ?r = passthrough_marker F"
    using execute_passthrough [OF assms(5-8), of "step_id step"] by simp_all
  have "handle_passthrough skill inputs ?r = Inr ?r"
    using handle_passthrough_marker [OF m, of skill inputs] assms(9) by simp
  from run_step_invoked [OF assms(1-4) this]
  obtain st0 where
    run: "run_step impl log_frames depth reg mock request step st
       = Inr (record_step (step_id step) ?r (result_output ?r)
                (status_value (result_status ?r)) st0)"
    by blast
  let ?st' = "record_step (step_id step) ?r (result_output ?r)
                (status_value (result_status ?r)) st0"
  have a: "map_of (st_step_results ?st') (step_id step) = Some ?r"
    and b: "map_of (st_steps ?st') (step_id step)
              = Some (context_entry (passthrough_marker F) ''failure'')"
    using record_step_lookup [of "step_id step" ?r "result_output ?r"
        "status_value (result_status ?r)" st0] m
    by simp_all
  have later: "\<forall>rest stf.
             run_steps impl log_frames depth reg mock request rest ?st' = Inr stf
             \<and> step_id step \<notin> set (map step_id rest) \<longrightarrow>
               map_of (st_step_results stf) (step_id step) = Some ?r
               \<and> map_of (st_steps stf) (step_id step)
                   = Some (context_entry (passthrough_marker F) ''failure'')
               \<and> (CHR ''.'' \<notin> set (step_id step) \<and> step_id step \<noteq> ''request''
                    \<and> step_id step \<noteq> ''steps'' \<longrightarrow>
                    resolve_reference (''${'' @ step_id step @ ''.output._field}'')
                      \<lparr>ctx_request = request, ctx_steps = st_steps stf\<rparr> = PStr F)"
  proof (intro allI impI, elim conjE)
    fix rest stf
    assume h: "run_steps impl log_frames depth reg mock request rest ?st' = Inr stf"
      and n: "step_id step \<notin> set (map step_id rest)"
    from run_steps_other [OF h n] a b
    have c: "map_of (st_step_results stf) (step_id step) = Some ?r"
      and d: "map_of (st_steps stf) (step_id step)
                = Some (context_entry (passthrough_marker F) ''failure'')"
      by simp_all
    have "CHR ''.'' \<notin> set (step_id step) \<and> step_id step \<noteq> ''request''
            \<and> step_id step \<noteq> ''steps'' \<longrightarrow>
          resolve_reference (''${'' @ step_id step @ ''.output._field}'')
            \<lparr>ctx_request = request, ctx_steps = st_steps stf\<rparr> = PStr F"
      using observe_marker_field [of "\<lparr>ctx_request = request, ctx_steps = st_steps stf\<rparr>"
          "step_id step" F "''failure''"] d
      by simp
    with c d show "map_of (st_step_results stf) (step_id step) = Some ?r
               \<and> map_of (st_steps stf) (step_id step)
                   = Some (context_entry (passthrough_marker F) ''failure'')
               \<and> (CHR ''.'' \<notin> set (step_id step) \<and> step_id step \<noteq> ''request''
                    \<and> step_id step \<noteq> ''steps'' \<longrightarrow>
                    resolve_reference (''${'' @ step_id step @ ''.output._field}'')
                      \<lparr>ctx_request = request, ctx_steps = st_steps stf\<rparr> = PStr F)"
      by blast
  qed
  have flow: "\<forall>fid flow pre rest env cache log mock_mode res cache'' log''.
             get_flow reg fid = Some flow \<and> flow_steps flow = pre @ step # rest
             \<and> resolve_mock_mode mock_mode env = mock
             \<and> run_steps impl log_frames depth reg mock request pre
                   \<lparr>st_steps = [], st_step_results = [], st_cache = cache, st_log = log\<rparr>
                 = Inr st
             \<and> step_id step \<notin> set (map step_id rest)
             \<and> execute_flow impl log_frames depth env reg cache log fid request mock_mode
                 = Inr (res, cache'', log'') \<longrightarrow>
               map_of (fr_step_results res) (step_id step) = Some ?r"
  proof (intro allI impI, elim conjE)
    fix fid flow pre rest env cache log mock_mode res cache'' log''
    assume f: "get_flow reg fid = Some flow" and s: "flow_steps flow = pre @ step # rest"
      and mk: "resolve_mock_mode mock_mode env = mock"
      and p: "run_steps impl log_frames depth reg mock request pre
                \<lparr>st_steps = [], st_step_results = [], st_cache = cache, st_log = log\<rparr> = Inr st"
      and n: "step_id step \<notin> set (map step_id rest)"
      and e: "execute_flow impl log_frames depth env reg cache log fid request mock_mode
                = Inr (res, cache'', log'')"
    have all: "run_steps impl log_frames depth reg mock request (flow_steps flow)
                 \<lparr>st_steps = [], st_step_results = [], st_cache = cache, st_log = log\<rparr>
               = run_steps impl log_frames depth reg mock request rest ?st'"
      unfolding s by (simp add: run_steps_append p run)
    from e f mk all obtain stf where
      r: "run_steps impl log_frames depth reg mock request rest ?st' = Inr stf"
      and q: "fr_step_results res = st_step_results stf"
      by (auto simp: execute_flow_def Let_def split: sum.splits)
    from later r n have "map_of (st_step_results stf) (step_id step) = Some ?r"
      by blast
    with q show "map_of (fr_step_results res) (step_id step) = Some ?r"
      by simp
  qed
  show ?thesis
    using run a b m(1,2) later flow by blast
qed

section \<open>Flow execution\<close>

lemma get_executor_returns: "\<exists>ex cache'. get_executor cache skill = Inr (ex, cache')"
  by (cases "skill_type_of skill") (auto simp: get_executor_def Let_def split: option.splits)

lemma handle_passthrough_raises:
  "handle_passthrough skill inputs r = Inl e \<Longrightarrow> e = TypeError"
  by (auto simp: handle_passthrough_def split: if_splits pyval.splits option.splits)

lemma execute_flow_not_found:
  "get_flow reg fid = None \<Longrightarrow>
   execute_flow impl log_frames depth env reg cache log fid request mock_mode
     = Inr (\<lparr>fr_flow_id = fid, fr_status = FAILURE, fr_response = [], fr_step_results = [],
             fr_display = None, fr_error = Some (''Flow not found: '' @ fid)\<rparr>, cache, log)"
  by (simp add: execute_flow_def)

lemma execute_flow_success:
  "get_flow reg fid = Some flow \<Longrightarrow>
   execute_flow impl log_frames depth env reg cache log fid request mock_mode = Inr (res, cache', log') \<Longrightarrow>
   fr_status res = SUCCESS \<and> fr_error res = None"
  by (auto simp: execute_flow_def Let_def split: sum.splits)

text \<open>
  C3. \<open>execute_flow\<close> does not return a flow result for every registered flow: when the
  fallback of a failing step is a default value that carries the passthrough marker with
  a list as \<open>_field\<close>, the membership test of the passthrough block raises a
  \<open>TypeError\<close>, which nothing catches.
\<close>

theorem execute_flow_type_error:
  "get_flow crash_registry ''test_flow'' = Some crash_flow
   \<and> execute_flow impl_echo 0 0 None crash_registry [] [] ''test_flow'' [] None = Inl TypeError"
  by code_simp

theorem passthrough_substitution_witness:
  "condition_not_met 0 0 step_with_q
       \<lparr>ctx_request = [(''message'', PStr ''hello'')], ctx_steps = st_steps empty_state\<rparr>
     = Inr False
   \<and> get_skill passthrough_registry (step_skill step_with_q)
       = Some (test_manifest fallback_passthrough_q)
   \<and> get_executor (st_cache empty_state) (test_manifest fallback_passthrough_q)
       = Inr (test_executor, [(''test_skill'', test_executor)])
   \<and> [(''q'', PStr ''hello'')]
       = resolve_step_inputs step_with_q
           \<lparr>ctx_request = [(''message'', PStr ''hello'')], ctx_steps = st_steps empty_state\<rparr>
   \<and> invocation_fails impl_fails (manifest test_executor) [(''q'', PStr ''hello'')] False
         (st_log empty_state)
   \<and> strategy (fallback (manifest test_executor)) = PASSTHROUGH
   \<and> passthrough_field (fallback (manifest test_executor)) = Some ''q''
   \<and> py_in ''q'' [(''q'', PStr ''hello'')]
   \<and> (\<exists>st' r. run_step impl_fails 0 0 passthrough_registry False [(''message'', PStr ''hello'')]
                  step_with_q empty_state = Inr st'
          \<and> map_of (st_step_results st') ''step1'' = Some r
          \<and> result_status r = FAILURE
          \<and> result_output r = [(''result'', PStr ''hello'')]
          \<and> map_of (st_steps st') ''step1''
              = Some (context_entry [(''result'', PStr ''hello'')] ''failure''))"
proof -
  let ?request = "[(''message'', PStr ''hello'')]"
  let ?ctx = "\<lparr>ctx_request = ?request, ctx_steps = st_steps empty_state\<rparr>"
  let ?skill = "test_manifest fallback_passthrough_q"
  have h1: "condition_not_met 0 0 step_with_q ?ctx = Inr False"
    by (simp add: condition_not_met_def step_with_q_def truthy_str_def)
  have h2: "get_skill passthrough_registry (step_skill step_with_q) = Some ?skill"
    by (simp add: get_skill_def passthrough_registry_def step_with_q_def)
  have h3: "get_executor (st_cache empty_state) ?skill
              = Inr (test_executor, [(''test_skill'', test_executor)])"
    by code_simp
  have h4: "[(''q'', PStr ''hello'')] = resolve_step_inputs step_with_q ?ctx"
    by code_simp
  have h5: "invocation_fails impl_fails (manifest test_executor) [(''q'', PStr ''hello'')] False
              (st_log empty_state)"
    by (simp add: invocation_fails_def impl_fails_def)
  have h6: "strategy (fallback (manifest test_executor)) = PASSTHROUGH"
    by (simp add: test_executor_def test_manifest_def fallback_passthrough_q_def)
  have h7: "passthrough_field (fallback (manifest test_executor)) = Some ''q''"
    by (simp add: test_executor_def test_manifest_def fallback_passthrough_q_def)
  have h8: "''q'' \<noteq> []" by simp
  have h9: "py_in ''q'' [(''q'', PStr ''hello'')]" by (simp add: py_in_def)
  have e1: "step_id step_with_q = ''step1''" by (simp add: step_with_q_def)
  have e2: "first_output_field ?skill = ''result''"
    by (simp add: first_output_field_def test_manifest_def)
  have e3: "py_get [(''q'', PStr ''hello'')] ''q'' = PStr ''hello''"
    by (simp add: py_get_def)
  from passthrough_substitution [OF h1 h2 h3 h4 h5 h6 h7 h8 h9]
  have "\<exists>st' r. run_step impl_fails 0 0 passthrough_registry False ?request
                  step_with_q empty_state = Inr st'
          \<and> map_of (st_step_results st') ''step1'' = Some r
          \<and> result_status r = FAILURE
          \<and> result_output r = [(''result'', PStr ''hello'')]
          \<and> map_of (st_steps st') ''step1''
              = Some (context_entry [(''result'', PStr ''hello'')] ''failure'')"
    unfolding e1 e2 e3 by blast
  with h1 h2 h3 h4 h5 h6 h7 h9 show ?thesis by blast
qed

theorem passthrough_marker_recorded_witness:
  "condition_not_met 0 0 step_without_q \<lparr>ctx_request = [], ctx_steps = st_steps empty_state\<rparr>
     = Inr False
   \<and> get_skill passthrough_registry (step_skill step_without_q)
       = Some (test_manifest fallback_passthrough_q)
   \<and> get_executor (st_cache empty_state) (test_manifest fallback_passthrough_q)
       = Inr (test_executor, [(''test_skill'', test_executor)])
   \<and> [] = resolve_step_inputs step_without_q
              \<lparr>ctx_request = [], ctx_steps = st_steps empty_state\<rparr>
   \<and> invocation_fails impl_echo (manifest test_executor) [] False (st_log empty_state)
   \<and> strategy (fallback (manifest test_executor)) = PASSTHROUGH
   \<and> passthrough_field (fallback (manifest test_executor)) = Some ''q''
   \<and> \<not> py_in ''q'' []
   \<and> (\<exists>st' r. run_step impl_echo 0 0 passthrough_registry False [] step_without_q empty_state
                  = Inr st'
          \<and> map_of (st_step_results st') ''step1'' = Some r
          \<and> result_status r = FAILURE
          \<and> result_output r = [(''_fallback'', PStr ''passthrough''), (''_field'', PStr ''q'')]
          \<and> resolve_reference ''${step1.output._field}''
               \<lparr>ctx_request = [], ctx_steps = st_steps st'\<rparr> = PStr ''q'')"
proof -
  let ?ctx = "\<lparr>ctx_request = [], ctx_steps = st_steps empty_state\<rparr>"
  let ?skill = "test_manifest fallback_passthrough_q"
  have h1: "condition_not_met 0 0 step_without_q ?ctx = Inr False"
    by (simp add: condition_not_met_def step_without_q_def truthy_str_def)
  have h2: "get_skill passthrough_registry (step_skill step_without_q) = Some ?skill"
    by (simp add: get_skill_def passthrough_registry_def step_without_q_def)
  have h3: "get_executor (st_cache empty_state) ?skill
              = Inr (test_executor, [(''test_skill'', test_executor)])"
    by code_simp
  have h4: "[] = resolve_step_inputs step_without_q ?ctx"
    by (simp add: resolve_step_inputs_def step_without_q_def)
  have h5: "invocation_fails impl_echo (manifest test_executor) [] False (st_log empty_state)"
    by code_simp
  have h6: "strategy (fallback (manifest test_executor)) = PASSTHROUGH"
    by (simp add: test_executor_def test_manifest_def fallback_passthrough_q_def)
  have h7: "passthrough_field (fallback (manifest test_executor)) = Some ''q''"
    by (simp add: test_executor_def test_manifest_def fallback_passthrough_q_def)
  have h8: "''q'' \<noteq> []" by simp
  have h9: "\<not> py_in ''q'' []" by (simp add: py_in_def)
  have e1: "step_id step_without_q = ''step1''" by (simp add: step_without_q_def)
  from passthrough_marker_recorded [OF h1 h2 h3 h4 h5 h6 h7 h8 h9]
  obtain st' r where
    a: "run_step impl_echo 0 0 passthrough_registry False [] step_without_q empty_state = Inr st'"
    and b: "map_of (st_step_results st') (step_id step_without_q) = Some r"
    and c: "result_status r = FAILURE"
    and d: "result_output r = passthrough_marker ''q''"
    and later: "\<forall>rest stf.
             run_steps impl_echo 0 0 passthrough_registry False [] rest st' = Inr stf
             \<and> step_id step_without_q \<notin> set (map step_id rest) \<longrightarrow>
               map_of (st_step_results stf) (step_id step_without_q) = Some r
               \<and> map_of (st_steps stf) (step_id step_without_q)
                   = Some (context_entry (passthrough_marker ''q'') ''failure'')
               \<and> (CHR ''.'' \<notin> set (step_id step_without_q)
                    \<and> step_id step_without_q \<noteq> ''request''
                    \<and> step_id step_without_q \<noteq> ''steps'' \<longrightarrow>
                    resolve_reference (''${'' @ step_id step_without_q @ ''.output._field}'')
                      \<lparr>ctx_request = [], ctx_steps = st_steps stf\<rparr> = PStr ''q'')"
    by blast
  have "run_steps impl_echo 0 0 passthrough_registry False [] [] st' = Inr st'
          \<and> step_id step_without_q \<notin> set (map step_id [])"
    by simp
  with later have
    "CHR ''.'' \<notin> set (step_id step_without_q) \<and> step_id step_without_q \<noteq> ''request''
       \<and> step_id step_without_q \<noteq> ''steps'' \<longrightarrow>
     resolve_reference (''${'' @ step_id step_without_q @ ''.output._field}'')
       \<lparr>ctx_request = [], ctx_steps = st_steps st'\<rparr> = PStr ''q''"
    by blast
  then have f: "resolve_reference ''${step1.output._field}''
               \<lparr>ctx_request = [], ctx_steps = st_steps st'\<rparr> = PStr ''q''"
    unfolding e1 by simp
  have "run_step impl_echo 0 0 passthrough_registry False [] step_without_q empty_state = Inr st'
          \<and> map_of (st_step_results st') ''step1'' = Some r
          \<and> result_status r = FAILURE
          \<and> result_output r = [(''_fallback'', PStr ''passthrough''), (''_field'', PStr ''q'')]
          \<and> resolve_reference ''${step1.output._field}''
               \<lparr>ctx_request = [], ctx_steps = st_steps st'\<rparr> = PStr ''q''"
    using a b c d f unfolding e1 passthrough_marker_def by simp
  with h1 h2 h3 h4 h5 h6 h7 h9 show ?thesis by blast
qed

end
